theory Spec2Isabelle
  imports Complex_Main "HOL-Library.Log_Nat"
begin

text \<open>
  A model of the class \<^verbatim>\<open>DysonClient\<close> of the Dyson adapter: the client of the vendor's
  cloud that authenticates, lists the devices of the account, reads the wire state of a
  device and projects it to a status, and writes partial updates of it. The JavaScript
  values the client computes with (numbers and strings) come first, then the data model
  and the operations, each next to the source it follows, then what the operations are
  proved to do.
\<close>

section \<open>JavaScript numbers\<close>

text \<open>
  A JavaScript \<^verbatim>\<open>number\<close> is an IEEE 754 double: NaN, one of the two infinities, or a
  finite value. \<open>Fin m e\<close> stands for the finite value \<open>m * 2 ^ e\<close>. Every operation
  below returns a finite double in the form the format stores it in: \<open>\<bar>m\<bar> < 2 ^ 53\<close>,
  \<open>- 1074 \<le> e \<le> 971\<close>, and \<open>2 ^ 52 \<le> \<bar>m\<bar>\<close> unless \<open>e = - 1074\<close>; zero is \<open>Fin 0 0\<close>.
  The two zeros are identified: the client never divides by a computed value, and both
  zeros compare equal and render as \<^verbatim>\<open>0\<close>.
\<close>

datatype number = NaN | PosInfinity | NegInfinity | Fin int int

definition valueOf :: "int \<Rightarrow> int \<Rightarrow> rat" where
  "valueOf m e = of_int m * 2 powi e"

definition shl :: "int \<Rightarrow> int \<Rightarrow> int" where
  "shl a k = (if 0 \<le> k then a * 2 ^ nat k else a)"

text \<open>The integer nearest to \<open>a / b\<close> (for \<open>0 < b\<close>), a tie going to the even one.\<close>

definition nearestEven :: "int \<Rightarrow> int \<Rightarrow> int" where
  "nearestEven a b =
     (let q = a div b; r = a mod b
      in if 2 * r < b then q else if b < 2 * r then q + 1
         else if even q then q else q + 1)"

text \<open>
  Rounding to the nearest double, ties to even: \<open>roundPos a b k\<close> is the double nearest
  to \<open>a / b * 2 ^ k\<close> for positive \<open>a\<close> and \<open>b\<close>. \<open>e\<close> is the binary exponent of that
  value and \<open>u\<close> the exponent of the last bit a double of that size keeps (never below
  \<open>- 1074\<close>: the subnormal range); a mantissa rounded up to \<open>2 ^ 53\<close> moves to the next
  exponent, and a value beyond the largest double becomes Infinity.
\<close>

definition roundPos :: "int \<Rightarrow> int \<Rightarrow> int \<Rightarrow> number" where
  "roundPos a b k =
     (let d = bitlen a - bitlen b;
          e = k + (if shl b d \<le> shl a (- d) then d else d - 1);
          u = max e (- 1022) - 52;
          q = nearestEven (shl a (k - u)) (shl b (u - k))
      in if q = 0 then Fin 0 0
         else if q = 2 ^ 53 then (if 971 \<le> u then PosInfinity else Fin (2 ^ 52) (u + 1))
         else if 971 < u then PosInfinity
         else Fin q u)"

fun num_neg :: "number \<Rightarrow> number" where
  "num_neg NaN = NaN"
| "num_neg PosInfinity = NegInfinity"
| "num_neg NegInfinity = PosInfinity"
| "num_neg (Fin m e) = Fin (- m) e"

definition roundDouble :: "int \<Rightarrow> int \<Rightarrow> int \<Rightarrow> number" where
  "roundDouble a b k =
     (if a = 0 then Fin 0 0
      else if 0 < a then roundPos a b k
      else num_neg (roundPos (- a) b k))"

text \<open>
  Literals: \<open>num n\<close> is the double of the integer \<open>n\<close>, and \<open>decimal n j\<close> the double of
  the decimal literal \<open>n / 10 ^ j\<close> (\<open>decimal 27315 2\<close> is \<^verbatim>\<open>273.15\<close>).
\<close>

definition num :: "int \<Rightarrow> number" where
  "num n = roundDouble n 1 0"

definition decimal :: "int \<Rightarrow> nat \<Rightarrow> number" where
  "decimal n j = roundDouble n (10 ^ j) 0"

text \<open>The arithmetic operators \<^verbatim>\<open>+\<close>, \<^verbatim>\<open>-\<close>, \<^verbatim>\<open>*\<close> and \<^verbatim>\<open>/\<close>: the exact result, rounded.\<close>

fun num_add :: "number \<Rightarrow> number \<Rightarrow> number" where
  "num_add NaN y = NaN"
| "num_add x NaN = NaN"
| "num_add PosInfinity NegInfinity = NaN"
| "num_add NegInfinity PosInfinity = NaN"
| "num_add PosInfinity y = PosInfinity"
| "num_add NegInfinity y = NegInfinity"
| "num_add x PosInfinity = PosInfinity"
| "num_add x NegInfinity = NegInfinity"
| "num_add (Fin m e) (Fin m' e') =
     roundDouble (shl m (e - min e e') + shl m' (e' - min e e')) 1 (min e e')"

definition num_sub :: "number \<Rightarrow> number \<Rightarrow> number" where
  "num_sub x y = num_add x (num_neg y)"

fun num_mul :: "number \<Rightarrow> number \<Rightarrow> number" where
  "num_mul NaN y = NaN"
| "num_mul x NaN = NaN"
| "num_mul (Fin m e) (Fin m' e') = roundDouble (m * m') 1 (e + e')"
| "num_mul (Fin m e) PosInfinity =
     (if m = 0 then NaN else if 0 < m then PosInfinity else NegInfinity)"
| "num_mul (Fin m e) NegInfinity =
     (if m = 0 then NaN else if 0 < m then NegInfinity else PosInfinity)"
| "num_mul PosInfinity (Fin m e) =
     (if m = 0 then NaN else if 0 < m then PosInfinity else NegInfinity)"
| "num_mul NegInfinity (Fin m e) =
     (if m = 0 then NaN else if 0 < m then NegInfinity else PosInfinity)"
| "num_mul PosInfinity PosInfinity = PosInfinity"
| "num_mul NegInfinity NegInfinity = PosInfinity"
| "num_mul PosInfinity NegInfinity = NegInfinity"
| "num_mul NegInfinity PosInfinity = NegInfinity"

text \<open>A zero divisor is taken as \<^verbatim>\<open>+0\<close>; the client only divides by the literals 10 and 5.\<close>

fun num_div :: "number \<Rightarrow> number \<Rightarrow> number" where
  "num_div NaN y = NaN"
| "num_div x NaN = NaN"
| "num_div (Fin m e) (Fin m' e') =
     (if m' = 0 then (if m = 0 then NaN else if 0 < m then PosInfinity else NegInfinity)
      else if 0 < m' then roundDouble m m' (e - e')
      else roundDouble (- m) (- m') (e - e'))"
| "num_div (Fin m e) y = Fin 0 0"
| "num_div x (Fin m e) = (if 0 \<le> m then x else num_neg x)"
| "num_div x y = NaN"

text \<open>
  \<^verbatim>\<open>Math.round\<close>: the nearest integer, a tie going towards \<^verbatim>\<open>+Infinity\<close>, that is
  \<open>\<lfloor>x + 1 / 2\<rfloor>\<close>. A double with \<open>0 \<le> e\<close> is an integer already.
\<close>

fun Math_round :: "number \<Rightarrow> number" where
  "Math_round (Fin m e) =
     (if 0 \<le> e then Fin m e else num ((2 * m + 2 ^ nat (- e)) div 2 ^ nat (1 - e)))"
| "Math_round x = x"

fun isNaN :: "number \<Rightarrow> bool" where
  "isNaN NaN = True"
| "isNaN x = False"

text \<open>The comparisons \<^verbatim>\<open><=\<close> and \<^verbatim>\<open><\<close>: false as soon as one side is NaN.\<close>

fun num_le :: "number \<Rightarrow> number \<Rightarrow> bool" where
  "num_le NaN y = False"
| "num_le x NaN = False"
| "num_le NegInfinity y = True"
| "num_le x PosInfinity = True"
| "num_le PosInfinity y = False"
| "num_le x NegInfinity = False"
| "num_le (Fin m e) (Fin m' e') = (shl m (e - min e e') \<le> shl m' (e' - min e e'))"

fun num_lt :: "number \<Rightarrow> number \<Rightarrow> bool" where
  "num_lt NaN y = False"
| "num_lt x NaN = False"
| "num_lt PosInfinity y = False"
| "num_lt x NegInfinity = False"
| "num_lt NegInfinity y = True"
| "num_lt x PosInfinity = True"
| "num_lt (Fin m e) (Fin m' e') = (shl m (e - min e e') < shl m' (e' - min e e'))"

section \<open>JavaScript strings\<close>

text \<open>
  A string is the list of the bytes of its UTF-8 encoding, so the degree sign U+00B0 is
  the two bytes C2 B0. The string functions the client calls look at ASCII characters
  only, apart from the white space that \<^verbatim>\<open>parseInt\<close> skips.
\<close>

definition digit_chars :: string where
  "digit_chars = ''0123456789''"

text \<open>The decimal digits of a natural number, without leading zeros.\<close>

function dec :: "nat \<Rightarrow> string" where
  "dec n = (if n < 10 then [digit_chars ! n] else dec (n div 10) @ [digit_chars ! (n mod 10)])"
  by pat_completeness auto
termination by (relation "measure id") auto

declare dec.simps [simp del]

definition isDigit :: "char \<Rightarrow> bool" where
  "isDigit c = (48 \<le> (of_char c :: nat) \<and> (of_char c :: nat) \<le> 57)"

definition digitValue :: "char \<Rightarrow> int" where
  "digitValue c = of_char c - 48"

text \<open>
  The white space and line terminators of ECMAScript, in UTF-8: TAB, LF, VT, FF, CR, SP,
  U+00A0, U+1680, U+2000 to U+200A, U+2028, U+2029, U+202F, U+205F, U+3000, U+FEFF.
\<close>

definition whiteSpace :: "string list" where
  "whiteSpace =
     [[CHR 0x09], [CHR 0x0A], [CHR 0x0B], [CHR 0x0C], [CHR 0x0D], [CHR 0x20],
      [CHR 0xC2, CHR 0xA0], [CHR 0xE1, CHR 0x9A, CHR 0x80],
      [CHR 0xE2, CHR 0x80, CHR 0x80], [CHR 0xE2, CHR 0x80, CHR 0x81],
      [CHR 0xE2, CHR 0x80, CHR 0x82], [CHR 0xE2, CHR 0x80, CHR 0x83],
      [CHR 0xE2, CHR 0x80, CHR 0x84], [CHR 0xE2, CHR 0x80, CHR 0x85],
      [CHR 0xE2, CHR 0x80, CHR 0x86], [CHR 0xE2, CHR 0x80, CHR 0x87],
      [CHR 0xE2, CHR 0x80, CHR 0x88], [CHR 0xE2, CHR 0x80, CHR 0x89],
      [CHR 0xE2, CHR 0x80, CHR 0x8A], [CHR 0xE2, CHR 0x80, CHR 0xA8],
      [CHR 0xE2, CHR 0x80, CHR 0xA9], [CHR 0xE2, CHR 0x80, CHR 0xAF],
      [CHR 0xE2, CHR 0x81, CHR 0x9F], [CHR 0xE3, CHR 0x80, CHR 0x80],
      [CHR 0xEF, CHR 0xBB, CHR 0xBF]]"

definition whiteSpaceLength :: "string \<Rightarrow> nat" where
  "whiteSpaceLength s = (case find (\<lambda>w. take (length w) s = w) whiteSpace of
                           None \<Rightarrow> 0 | Some w \<Rightarrow> length w)"

function trimStart :: "string \<Rightarrow> string" where
  "trimStart s = (if s = [] \<or> whiteSpaceLength s = 0 then s
                  else trimStart (drop (whiteSpaceLength s) s))"
  by pat_completeness auto
termination by (relation "measure length") auto

declare trimStart.simps [simp del]

definition digitsValue :: "string \<Rightarrow> int" where
  "digitsValue z = foldl (\<lambda>acc c. 10 * acc + digitValue c) 0 z"

text \<open>
  \<^verbatim>\<open>parseInt(inputString, 10)\<close>: skip leading white space, read an optional sign, then
  the longest run of decimal digits; whatever follows is ignored. No digit gives NaN;
  otherwise the result is the double nearest to the integer read (ECMAScript lets an
  implementation approximate beyond 20 digits; the nearest double is what V8 returns).
\<close>

definition parseInt :: "string \<Rightarrow> number" where
  "parseInt inputString =
     (let s = trimStart inputString;
          neg = (s \<noteq> [] \<and> hd s = CHR ''-'');
          s1 = (if s \<noteq> [] \<and> (hd s = CHR ''+'' \<or> hd s = CHR ''-'') then tl s else s);
          z = takeWhile isDigit s1
      in if z = [] then NaN
         else if neg then num (- digitsValue z) else num (digitsValue z))"

function numDigits :: "int \<Rightarrow> int" where
  "numDigits n = (if n < 10 then 1 else 1 + numDigits (n div 10))"
  by pat_completeness auto
termination by (relation "measure nat") auto

declare numDigits.simps [simp del]

text \<open>
  \<^verbatim>\<open>Number.prototype.toString\<close> (also what a template literal applies to a number). For a
  positive finite \<open>x = m * 2 ^ e\<close> it takes integers \<open>n\<close>, \<open>k\<close>, \<open>s\<close> with \<open>k\<close> as small
  as possible such that \<open>s\<close> has \<open>k\<close> digits and \<open>s * 10 ^ (n - k)\<close> rounds to \<open>x\<close>, the
  nearest to \<open>x\<close> if there are several.

  \<open>decimalExponent m e\<close> is the \<open>n\<close> with \<open>10 ^ (n - 1) \<le> x < 10 ^ n\<close>;
  \<open>candidates m e n k\<close> are the \<open>k\<close>-digit numbers next to \<open>x / 10 ^ (n - k)\<close> that round
  to \<open>x\<close>, nearest first, each with its exponent; \<open>shortest\<close> tries \<open>k = 1, 2, \<dots>\<close>
  (17 digits identify every double).
\<close>

definition decimalExponent :: "int \<Rightarrow> int \<Rightarrow> int" where
  "decimalExponent m e =
     (if 0 \<le> e then numDigits (m * 2 ^ nat e)
      else if 2 ^ nat (- e) \<le> m then numDigits (m div 2 ^ nat (- e))
      else 1 - numDigits ((2 ^ nat (- e) + m - 1) div m - 1))"

definition pow10 :: "int \<Rightarrow> int" where
  "pow10 j = (if 0 \<le> j then 10 ^ nat j else 1)"

definition candidates :: "int \<Rightarrow> int \<Rightarrow> int \<Rightarrow> int \<Rightarrow> (int \<times> int) list" where
  "candidates m e n k =
     (let p = shl m e * pow10 (k - n); q = shl 1 (- e) * pow10 (n - k);
          lo = p div q;
          ok = (\<lambda>s. roundDouble (s * pow10 (n - k)) (pow10 (k - n)) 0 = Fin m e);
          both = (if 2 * (p mod q) < q \<or> (2 * (p mod q) = q \<and> even lo)
                  then [lo, lo + 1] else [lo + 1, lo])
      in map (\<lambda>s. if s = 10 ^ nat k then (10 ^ nat (k - 1), n + 1) else (s, n))
             (filter ok both))"

fun shortest :: "int \<Rightarrow> int \<Rightarrow> int \<Rightarrow> int \<Rightarrow> nat \<Rightarrow> int \<times> int \<times> int" where
  "shortest m e n k 0 =
     (k, nearestEven (shl m e * pow10 (k - n)) (shl 1 (- e) * pow10 (n - k)), n)"
| "shortest m e n k (Suc fuel) =
     (case candidates m e n k of
        [] \<Rightarrow> shortest m e n (k + 1) fuel
      | (s, n') # _ \<Rightarrow> (k, s, n'))"

definition zeros :: "int \<Rightarrow> string" where
  "zeros j = replicate (nat j) CHR ''0''"

definition formatDigits :: "int \<Rightarrow> string \<Rightarrow> int \<Rightarrow> string" where
  "formatDigits k ds n =
     (if k \<le> n \<and> n \<le> 21 then ds @ zeros (n - k)
      else if 0 < n \<and> n \<le> 21 then take (nat n) ds @ ''.'' @ drop (nat n) ds
      else if - 6 < n \<and> n \<le> 0 then ''0.'' @ zeros (- n) @ ds
      else (if k = 1 then ds else take 1 ds @ ''.'' @ drop 1 ds)
           @ ''e'' @ (if 0 \<le> n - 1 then ''+'' else ''-'') @ dec (nat \<bar>n - 1\<bar>))"

definition posToString :: "int \<Rightarrow> int \<Rightarrow> string" where
  "posToString m e = (case shortest m e (decimalExponent m e) 1 16 of
                        (k, s, n) \<Rightarrow> formatDigits k (dec (nat s)) n)"

fun toString :: "number \<Rightarrow> string" where
  "toString NaN = ''NaN''"
| "toString PosInfinity = ''Infinity''"
| "toString NegInfinity = ''-Infinity''"
| "toString (Fin m e) = (if m = 0 then ''0'' else if m < 0 then ''-'' @ posToString (- m) e
                         else posToString m e)"

text \<open>
  \<^verbatim>\<open>toUpperCase\<close> on the ASCII letters. The characters beyond ASCII are left as they
  are: the client only compares the result with \<^verbatim>\<open>'AUTO'\<close>, and the upper case of a
  character beyond ASCII is no part of \<^verbatim>\<open>'AUTO'\<close> (it keeps a character beyond ASCII, or
  it is made of the letters F, I, L, S, T with an F, I or S among them), so the
  comparison comes out as in JavaScript.
\<close>

definition toUpperCase :: "string \<Rightarrow> string" where
  "toUpperCase s = map (\<lambda>c. if 97 \<le> (of_char c :: nat) \<and> (of_char c :: nat) \<le> 122
                              then char_of ((of_char c :: nat) - 32) else c) s"

definition padStart :: "string \<Rightarrow> nat \<Rightarrow> char \<Rightarrow> string" where
  "padStart s n c = replicate (n - length s) c @ s"

text \<open>A value of type \<^verbatim>\<open>string | undefined\<close> is falsy when undefined or empty.\<close>

fun truthy :: "string option \<Rightarrow> bool" where
  "truthy None = False"
| "truthy (Some s) = (s \<noteq> [])"

text \<open>The conditional \<^verbatim>\<open>x ? f(x) : d\<close> on such a value.\<close>

definition ifTruthy :: "string option \<Rightarrow> (string \<Rightarrow> 'a) \<Rightarrow> 'a \<Rightarrow> 'a" where
  "ifTruthy x f d = (case x of None \<Rightarrow> d | Some s \<Rightarrow> if s = [] then d else f s)"

section \<open>The data model of the client\<close>

text \<open>
  The interfaces \<^verbatim>\<open>DysonDevice\<close>, \<^verbatim>\<open>AirQuality\<close>, \<^verbatim>\<open>DeviceStatus\<close> and \<^verbatim>\<open>DysonState\<close>.
  The interface declares \<^verbatim>\<open>productTypeName\<close> a string; what \<^verbatim>\<open>getDevices\<close> stores there
  is the result of a property lookup on the object \<^verbatim>\<open>DEVICE_TYPES\<close>, which is a string
  for the keys of the table and the value of an inherited property (a function, or the
  prototype object) for a key such as \<^verbatim>\<open>constructor\<close>.
\<close>

datatype typeName = TypeName string | InheritedProperty string

record DysonDevice =
  serial :: string
  name :: string
  productType :: string
  productTypeName :: typeName
  connectionType :: string
  localCredentials :: "string option"

record AirQuality =
  pm25 :: number
  pm10 :: number
  voc :: number
  no2 :: number
  humidity :: number
  temperature :: number

record DeviceStatus =
  serial :: string
  name :: string
  power :: bool
  fanSpeed :: string
  oscillation :: bool
  nightMode :: bool
  autoMode :: bool
  airQuality :: "AirQuality option"

record DysonState =
  fpwr :: string
  fnsp :: string
  oson :: string
  nmod :: string
  auto :: string
  hact :: "string option"
  tact :: "string option"
  pact :: "string option"
  vact :: "string option"
  pm25 :: "string option"
  pm10 :: "string option"
  noxl :: "string option"

text \<open>
  A \<^verbatim>\<open>Partial<DysonState>\<close> is the object literal the caller writes, which
  \<^verbatim>\<open>JSON.stringify\<close> sends as the body of the update: its fields in the order written.
\<close>

type_synonym StateUpdate = "(string \<times> string) list"

text \<open>One entry of the manifest the cloud returns, as \<^verbatim>\<open>getDevices\<close> reads it.\<close>

record ManifestEntry =
  Serial :: string
  Name :: "string option"
  ProductType :: string
  ConnectionType :: string
  LocalCredentials :: "string option"

definition DEVICE_TYPES :: "(string \<times> string) list" where
  "DEVICE_TYPES =
     [(''358'', ''Pure Humidify+Cool''),
      (''438'', ''Pure Cool Formaldehyde''),
      (''455'', ''Pure Hot+Cool Link''),
      (''469'', ''Pure Cool Link Desk''),
      (''475'', ''Pure Cool Link Tower''),
      (''520'', ''Pure Cool''),
      (''527'', ''Pure Hot+Cool'')]"

text \<open>
  The properties that \<^verbatim>\<open>DEVICE_TYPES\<close>, an object literal, inherits from
  \<^verbatim>\<open>Object.prototype\<close>; the value of each is a function or an object, so it is truthy.
\<close>

definition inheritedKeys :: "string list" where
  "inheritedKeys =
     [''constructor'', ''hasOwnProperty'', ''isPrototypeOf'', ''propertyIsEnumerable'',
      ''toLocaleString'', ''toString'', ''valueOf'', ''__proto__'', ''__defineGetter__'',
      ''__defineSetter__'', ''__lookupGetter__'', ''__lookupSetter__'']"

section \<open>The pure helpers of DysonClient\<close>

text \<open>\<^verbatim>\<open>parseFanSpeed(fnsp)\<close>: \<^verbatim>\<open>'AUTO'\<close> gives \<^verbatim>\<open>'auto'\<close>, anything else \<^verbatim>\<open>parseInt(fnsp, 10).toString()\<close>.\<close>

definition parseFanSpeed :: "string \<Rightarrow> string" where
  "parseFanSpeed s = (if s = ''AUTO'' then ''auto'' else toString (parseInt s))"

text \<open>\<^verbatim>\<open>kelvinToCelsius(kelvin)\<close>: \<^verbatim>\<open>Math.round((kelvin - 273.15) * 10) / 10\<close>.\<close>

definition kelvinToCelsius :: "number \<Rightarrow> number" where
  "kelvinToCelsius kelvin =
     num_div (Math_round (num_mul (num_sub kelvin (decimal 27315 2)) (num 10))) (num 10)"

text \<open>
  \<^verbatim>\<open>parseAirQuality(state)\<close>: null when \<^verbatim>\<open>!state.pm25 && !state.pact && !state.hact\<close>,
  else the record whose fields are \<^verbatim>\<open>state.x ? parseInt(state.x, 10) : 0\<close>.
\<close>

definition parseAirQuality :: "DysonState \<Rightarrow> AirQuality option" where
  "parseAirQuality state =
     (if \<not> truthy (DysonState.pm25 state) \<and> \<not> truthy (pact state) \<and> \<not> truthy (hact state)
      then None
      else Some
        \<lparr>AirQuality.pm25 = ifTruthy (DysonState.pm25 state) parseInt
                             (ifTruthy (pact state) parseInt (num 0)),
         AirQuality.pm10 = ifTruthy (DysonState.pm10 state) parseInt (num 0),
         voc = ifTruthy (vact state) parseInt (num 0),
         no2 = ifTruthy (noxl state) parseInt (num 0),
         humidity = ifTruthy (hact state) parseInt (num 0),
         temperature = ifTruthy (tact state)
                         (\<lambda>t. kelvinToCelsius (num_div (parseInt t) (num 10))) (num 0)\<rparr>)"




text \<open>
  \<^verbatim>\<open>static getAirQualityLevel(pm25)\<close>: a chain of \<^verbatim>\<open>if (pm25 <= b) return\<close> statements, the
  first that holds decides.
\<close>

definition getAirQualityLevel :: "number \<Rightarrow> string" where
  "getAirQualityLevel v =
     (if num_le v (num 12) then ''Good''
      else if num_le v (num 35) then ''Moderate''
      else if num_le v (num 55) then ''Unhealthy for Sensitive Groups''
      else if num_le v (num 150) then ''Unhealthy''
      else if num_le v (num 250) then ''Very Unhealthy''
      else ''Hazardous'')"

section \<open>The cloud and the client\<close>

text \<open>
  \<^verbatim>\<open>fetch\<close> either resolves with a response, of which the client reads the status and,
  when the status is a success, the JSON body, or it rejects. The cloud is any function
  from the requests to such outcomes; its first argument is the number of requests the
  client has sent before, so its answers may change over time. Each endpoint answers
  with a body of the shape the client reads.
\<close>

datatype 'a response = Response nat 'a | NetworkError

record network =
  authenticateReply :: "nat \<Rightarrow> string \<Rightarrow> string \<Rightarrow> string response"
  manifestReply :: "nat \<Rightarrow> string option \<Rightarrow> ManifestEntry list response"
  stateReply :: "nat \<Rightarrow> string \<Rightarrow> string option \<Rightarrow> DysonState response"
  updateReply :: "nat \<Rightarrow> string \<Rightarrow> string option \<Rightarrow> StateUpdate \<Rightarrow> DysonState response"

text \<open>\<^verbatim>\<open>response.ok\<close>: a status from 200 to 299.\<close>

definition ok :: "nat \<Rightarrow> bool" where
  "ok status = (200 \<le> status \<and> status \<le> 299)"

text \<open>
  The requests, each with what the client puts in it: the credentials, the bearer token
  (\<^verbatim>\<open>authToken\<close>, which may be null), the serial of the device, the body of the update.
\<close>

datatype request =
    PostAuthenticate string string
  | GetManifest "string option"
  | GetState string "string option"
  | PatchState string "string option" StateUpdate

text \<open>
  What the client throws: \<^verbatim>\<open>Invalid Dyson credentials\<close>, \<^verbatim>\<open>Authentication failed: status\<close>,
  \<^verbatim>\<open>Failed to get devices: status\<close>, \<^verbatim>\<open>Device not found: id\<close>,
  \<^verbatim>\<open>No Dyson devices found in account\<close>, \<^verbatim>\<open>Failed to get device status: status\<close>,
  \<^verbatim>\<open>Failed to set device state: status\<close>, \<^verbatim>\<open>Fan speed must be 1-10 or "auto"\<close>,
  \<^verbatim>\<open>Air quality data not available for this device\<close>, and a rejected \<^verbatim>\<open>fetch\<close>.
\<close>

datatype error =
    InvalidCredentials
  | AuthenticationFailed nat
  | GetDevicesFailed nat
  | DeviceNotFound string
  | NoDevicesFound
  | GetStatusFailed nat
  | StateUpdateFailed nat
  | InvalidFanSpeed
  | AirQualityUnavailable
  | TransportFailure

text \<open>
  The fields of the class, and \<open>sent\<close>: the requests sent so far, oldest first. The
  client does not read \<open>sent\<close>; it is there to state what a call does on the network.
\<close>

record DysonClient =
  email :: string
  password :: string
  country :: string
  apiHost :: string
  authToken :: "string option"
  devices :: "DysonDevice list"
  sent :: "request list"

type_synonym 'a outcome = "(error + 'a) \<times> DysonClient"

definition authenticate :: "network \<Rightarrow> DysonClient \<Rightarrow> unit outcome" where
  "authenticate net c =
     (case authenticateReply net (length (sent c)) (email c) (password c) of
        NetworkError \<Rightarrow>
          (Inl TransportFailure, c\<lparr>sent := sent c @ [PostAuthenticate (email c) (password c)]\<rparr>)
      | Response status account \<Rightarrow>
          if \<not> ok status then
            (if status = 401
             then (Inl InvalidCredentials,
                   c\<lparr>sent := sent c @ [PostAuthenticate (email c) (password c)]\<rparr>)
             else (Inl (AuthenticationFailed status),
                   c\<lparr>sent := sent c @ [PostAuthenticate (email c) (password c)]\<rparr>))
          else (Inr (),
                c\<lparr>sent := sent c @ [PostAuthenticate (email c) (password c)],
                  authToken := Some account\<rparr>))"

text \<open>\<^verbatim>\<open>if (!this.authToken) { await this.authenticate(); }\<close>\<close>

definition ensureToken :: "network \<Rightarrow> DysonClient \<Rightarrow> unit outcome" where
  "ensureToken net c = (if truthy (authToken c) then (Inr (), c) else authenticate net c)"

text \<open>
  The object \<^verbatim>\<open>getDevices\<close> builds from one entry of the manifest.
  \<^verbatim>\<open>DEVICE_TYPES[device.ProductType] || 'Unknown Dyson Device'\<close> is the name of the table
  (none of them empty), the inherited property when the product type names one, and the
  default otherwise.
\<close>

definition toDevice :: "ManifestEntry \<Rightarrow> DysonDevice" where
  "toDevice device =
     \<lparr>DysonDevice.serial = Serial device,
      DysonDevice.name = ifTruthy (Name device) (\<lambda>n. n) (''Dyson '' @ ProductType device),
      productType = ProductType device,
      productTypeName =
        (case map_of DEVICE_TYPES (ProductType device) of
           Some n \<Rightarrow> TypeName n
         | None \<Rightarrow> if ProductType device \<in> set inheritedKeys
                    then InheritedProperty (ProductType device)
                    else TypeName ''Unknown Dyson Device''),
      connectionType = ConnectionType device,
      localCredentials = LocalCredentials device\<rparr>"

text \<open>
  \<^verbatim>\<open>getDevices\<close> calls itself after a 401, with nothing that bounds the number of calls:
  where it does not return, the value is \<open>None\<close>.
\<close>

partial_function (option) getDevices ::
  "network \<Rightarrow> DysonClient \<Rightarrow> DysonDevice list outcome option" where
  "getDevices net c =
     (case ensureToken net c of
        (Inl e, c1) \<Rightarrow> Some (Inl e, c1)
      | (Inr _, c1) \<Rightarrow>
          (case manifestReply net (length (sent c1)) (authToken c1) of
             NetworkError \<Rightarrow>
               Some (Inl TransportFailure, c1\<lparr>sent := sent c1 @ [GetManifest (authToken c1)]\<rparr>)
           | Response status data \<Rightarrow>
               if \<not> ok status then
                 (if status = 401 then
                    (case authenticate net
                            (c1\<lparr>sent := sent c1 @ [GetManifest (authToken c1)],
                                authToken := None\<rparr>) of
                       (Inl e, c2) \<Rightarrow> Some (Inl e, c2)
                     | (Inr _, c2) \<Rightarrow> getDevices net c2)
                  else Some (Inl (GetDevicesFailed status),
                             c1\<lparr>sent := sent c1 @ [GetManifest (authToken c1)]\<rparr>))
               else Some (Inr (map toDevice data),
                          c1\<lparr>sent := sent c1 @ [GetManifest (authToken c1)],
                              devices := map toDevice data\<rparr>)))"

declare getDevices.simps [code]

text \<open>\<^verbatim>\<open>if (this.devices.length === 0) { await this.getDevices(); }\<close>\<close>

definition ensureDevices ::
  "network \<Rightarrow> DysonClient \<Rightarrow> DysonDevice list outcome option" where
  "ensureDevices net c =
     (if devices c = [] then getDevices net c else Some (Inr (devices c), c))"

text \<open>
  \<^verbatim>\<open>getDevice(deviceId?)\<close>: \<^verbatim>\<open>if (deviceId)\<close> looks the serial up with \<^verbatim>\<open>find\<close>; an
  undefined or empty \<^verbatim>\<open>deviceId\<close> gives the first device.
\<close>

definition getDevice ::
  "network \<Rightarrow> DysonClient \<Rightarrow> string option \<Rightarrow> DysonDevice outcome option" where
  "getDevice net c deviceId =
     (case ensureDevices net c of
        None \<Rightarrow> None
      | Some (Inl e, c1) \<Rightarrow> Some (Inl e, c1)
      | Some (Inr _, c1) \<Rightarrow>
          Some (ifTruthy deviceId
                  (\<lambda>i. case find (\<lambda>d. DysonDevice.serial d = i) (devices c1) of
                         None \<Rightarrow> (Inl (DeviceNotFound i), c1)
                       | Some device \<Rightarrow> (Inr device, c1))
                  (if devices c1 = [] then (Inl NoDevicesFound, c1)
                   else (Inr (hd (devices c1)), c1))))"

text \<open>The object \<^verbatim>\<open>getDeviceStatus\<close> returns for a device and its wire state.\<close>

definition toStatus :: "DysonDevice \<Rightarrow> DysonState \<Rightarrow> DeviceStatus" where
  "toStatus device state =
     \<lparr>DeviceStatus.serial = DysonDevice.serial device,
      DeviceStatus.name = DysonDevice.name device,
      power = (fpwr state = ''ON''),
      fanSpeed = parseFanSpeed (fnsp state),
      oscillation = (oson state = ''ON''),
      nightMode = (nmod state = ''ON''),
      autoMode = (auto state = ''ON''),
      airQuality = parseAirQuality state\<rparr>"

definition getDeviceStatus ::
  "network \<Rightarrow> DysonClient \<Rightarrow> string option \<Rightarrow> DeviceStatus outcome option" where
  "getDeviceStatus net c deviceId =
     (case ensureToken net c of
        (Inl e, c1) \<Rightarrow> Some (Inl e, c1)
      | (Inr _, c1) \<Rightarrow>
          (case getDevice net c1 deviceId of
             None \<Rightarrow> None
           | Some (Inl e, c2) \<Rightarrow> Some (Inl e, c2)
           | Some (Inr device, c2) \<Rightarrow>
               (case stateReply net (length (sent c2)) (DysonDevice.serial device) (authToken c2) of
                  NetworkError \<Rightarrow>
                    Some (Inl TransportFailure,
                          c2\<lparr>sent := sent c2 @
                                [GetState (DysonDevice.serial device) (authToken c2)]\<rparr>)
                | Response status state \<Rightarrow>
                    if \<not> ok status
                    then Some (Inl (GetStatusFailed status),
                               c2\<lparr>sent := sent c2 @
                                     [GetState (DysonDevice.serial device) (authToken c2)]\<rparr>)
                    else Some (Inr (toStatus device state),
                               c2\<lparr>sent := sent c2 @
                                     [GetState (DysonDevice.serial device) (authToken c2)]\<rparr>))))"

definition setDeviceState ::
  "network \<Rightarrow> DysonClient \<Rightarrow> string option \<Rightarrow> StateUpdate \<Rightarrow> DeviceStatus outcome option" where
  "setDeviceState net c deviceId state =
     (case ensureToken net c of
        (Inl e, c1) \<Rightarrow> Some (Inl e, c1)
      | (Inr _, c1) \<Rightarrow>
          (case getDevice net c1 deviceId of
             None \<Rightarrow> None
           | Some (Inl e, c2) \<Rightarrow> Some (Inl e, c2)
           | Some (Inr device, c2) \<Rightarrow>
               (case updateReply net (length (sent c2)) (DysonDevice.serial device) (authToken c2)
                       state of
                  NetworkError \<Rightarrow>
                    Some (Inl TransportFailure,
                          c2\<lparr>sent := sent c2 @
                                [PatchState (DysonDevice.serial device) (authToken c2) state]\<rparr>)
                | Response status body \<Rightarrow>
                    if \<not> ok status
                    then Some (Inl (StateUpdateFailed status),
                               c2\<lparr>sent := sent c2 @
                                     [PatchState (DysonDevice.serial device) (authToken c2) state]\<rparr>)
                    else getDeviceStatus net
                           (c2\<lparr>sent := sent c2 @
                                 [PatchState (DysonDevice.serial device) (authToken c2) state]\<rparr>)
                           (Some (DysonDevice.serial device)))))"

text \<open>
  \<^verbatim>\<open>setFanSpeed\<close> first computes the fields to write, or throws; \<open>fanSpeedUpdate\<close> is that
  part (up to the call of \<^verbatim>\<open>setDeviceState\<close>), \<open>setFanSpeed\<close> the whole.
\<close>

definition fanSpeedUpdate :: "string \<Rightarrow> error + StateUpdate" where
  "fanSpeedUpdate speed =
     (if toUpperCase speed = ''AUTO''
      then Inr [(''fnsp'', ''AUTO''), (''auto'', ''ON''), (''fpwr'', ''ON'')]
      else if isNaN (parseInt speed) \<or> num_lt (parseInt speed) (num 1)
                \<or> num_lt (num 10) (parseInt speed)
      then Inl InvalidFanSpeed
      else Inr [(''fnsp'', padStart (toString (parseInt speed)) 4 CHR ''0''),
                (''auto'', ''OFF''), (''fpwr'', ''ON'')])"

definition setFanSpeed ::
  "network \<Rightarrow> DysonClient \<Rightarrow> string option \<Rightarrow> string \<Rightarrow> DeviceStatus outcome option" where
  "setFanSpeed net c deviceId speed =
     (case fanSpeedUpdate speed of
        Inl e \<Rightarrow> Some (Inl e, c)
      | Inr state \<Rightarrow> setDeviceState net c deviceId state)"

definition setOscillation ::
  "network \<Rightarrow> DysonClient \<Rightarrow> string option \<Rightarrow> bool \<Rightarrow> DeviceStatus outcome option" where
  "setOscillation net c deviceId enabled =
     setDeviceState net c deviceId [(''oson'', if enabled then ''ON'' else ''OFF'')]"

definition setNightMode ::
  "network \<Rightarrow> DysonClient \<Rightarrow> string option \<Rightarrow> bool \<Rightarrow> DeviceStatus outcome option" where
  "setNightMode net c deviceId enabled =
     setDeviceState net c deviceId [(''nmod'', if enabled then ''ON'' else ''OFF'')]"

definition getAirQuality ::
  "network \<Rightarrow> DysonClient \<Rightarrow> string option \<Rightarrow> AirQuality outcome option" where
  "getAirQuality net c deviceId =
     (case getDeviceStatus net c deviceId of
        None \<Rightarrow> None
      | Some (Inl e, c1) \<Rightarrow> Some (Inl e, c1)
      | Some (Inr status, c1) \<Rightarrow>
          (case airQuality status of
             None \<Rightarrow> Some (Inl AirQualityUnavailable, c1)
           | Some aq \<Rightarrow> Some (Inr aq, c1)))"

text \<open>The bodies of the updates among a list of requests.\<close>

fun patchBodies :: "request list \<Rightarrow> StateUpdate list" where
  "patchBodies [] = []"
| "patchBodies (PatchState s t u # rs) = u # patchBodies rs"
| "patchBodies (r # rs) = patchBodies rs"

text \<open>
  What \<^verbatim>\<open>authenticate\<close> and \<^verbatim>\<open>getDevices\<close> can throw, and what a call of \<^verbatim>\<open>getDevices\<close>
  that returns has done: it has sent requests, none of them an update, and on success the
  directory of the client is the list it returns.
\<close>

fun fetchError :: "error \<Rightarrow> bool" where
  "fetchError TransportFailure = True"
| "fetchError InvalidCredentials = True"
| "fetchError (AuthenticationFailed s) = True"
| "fetchError (GetDevicesFailed s) = True"
| "fetchError e = False"

definition fetched :: "DysonClient \<Rightarrow> DysonDevice list outcome \<Rightarrow> bool" where
  "fetched c y =
     ((\<exists>rs. sent (snd y) = sent c @ rs \<and> patchBodies rs = [])
      \<and> (case fst y of Inl e \<Rightarrow> fetchError e | Inr ds \<Rightarrow> devices (snd y) = ds))"

section \<open>A cloud and a client to run the operations on\<close>

text \<open>
  An account with one purifier, and a client that has not connected yet. \<open>cloud\<close>
  answers every request with a success; \<open>cloudExpired\<close> rejects every read of the
  state with a 401, as the cloud does once a token has expired; \<open>cloudRejecting k\<close>
  rejects the manifest with a 401 in each of the first \<open>k\<close> requests, and
  \<open>cloudUnauthorized\<close> rejects it always; \<open>cloudFailing status\<close> answers every update
  with that status; the account of \<open>cloudEmpty\<close> has no device; \<open>cloudMalformed\<close>
  reports a fan speed that is no speed code. \<open>emptyReading\<close> is a wire state whose
  only sensor field is an empty \<^verbatim>\<open>pm25\<close>. \<open>cloudAcknowledging\<close> answers an update
  with a body that is not the state a read returns. \<open>cloudBlankToken\<close> answers the
  first four requests for a token with an empty \<^verbatim>\<open>Account\<close> and rejects the
  credentials from then on.
\<close>

definition purifier :: ManifestEntry where
  "purifier = \<lparr>Serial = ''A1B-EU-KDA0001A'', Name = Some ''Bedroom'', ProductType = ''438'',
                ConnectionType = ''wss'', LocalCredentials = None\<rparr>"

definition purifierState :: DysonState where
  "purifierState =
     \<lparr>fpwr = ''ON'', fnsp = ''0007'', oson = ''OFF'', nmod = ''OFF'', auto = ''OFF'',
      hact = Some ''0045'', tact = Some ''2982'', pact = Some ''0003'', vact = Some ''0002'',
      DysonState.pm25 = None, DysonState.pm10 = None, noxl = None\<rparr>"

definition cloud :: network where
  "cloud = \<lparr>authenticateReply = (\<lambda>i e p. Response 200 ''token''),
            manifestReply = (\<lambda>i t. Response 200 [purifier]),
            stateReply = (\<lambda>i s t. Response 200 purifierState),
            updateReply = (\<lambda>i s t u. Response 200 purifierState)\<rparr>"

definition cloudExpired :: network where
  "cloudExpired = cloud\<lparr>stateReply := (\<lambda>i s t. Response 401 purifierState)\<rparr>"

definition cloudRejecting :: "nat \<Rightarrow> network" where
  "cloudRejecting k =
     cloud\<lparr>manifestReply := (\<lambda>i t. if i < k then Response 401 [] else Response 200 [purifier])\<rparr>"

definition cloudUnauthorized :: network where
  "cloudUnauthorized = cloud\<lparr>manifestReply := (\<lambda>i t. Response 401 [])\<rparr>"

definition cloudFailing :: "nat \<Rightarrow> network" where
  "cloudFailing status = cloud\<lparr>updateReply := (\<lambda>i s t u. Response status purifierState)\<rparr>"

definition cloudEmpty :: network where
  "cloudEmpty = cloud\<lparr>manifestReply := (\<lambda>i t. Response 200 [])\<rparr>"

definition cloudMalformed :: network where
  "cloudMalformed =
     cloud\<lparr>stateReply := (\<lambda>i s t. Response 200 (purifierState\<lparr>fnsp := ''FAST''\<rparr>))\<rparr>"

definition emptyReading :: DysonState where
  "emptyReading =
     \<lparr>fpwr = ''ON'', fnsp = ''AUTO'', oson = ''OFF'', nmod = ''OFF'', auto = ''ON'',
      hact = None, tact = None, pact = None, vact = None,
      DysonState.pm25 = Some [], DysonState.pm10 = None, noxl = None\<rparr>"

definition cloudAcknowledging :: network where
  "cloudAcknowledging = cloud\<lparr>updateReply := (\<lambda>i s t u. Response 200 emptyReading)\<rparr>"

definition cloudBlankToken :: network where
  "cloudBlankToken =
     cloud\<lparr>authenticateReply := (\<lambda>i e p. if i < 4 then Response 200 [] else Response 401 [])\<rparr>"

definition newClient :: DysonClient where
  "newClient = \<lparr>email = ''user@example.com'', password = ''secret'', country = ''US'',
                 apiHost = ''appapi.cp.dyson.com'', authToken = None, devices = [],
                 sent = []\<rparr>"

text \<open>The same client once connected: it holds a token and the directory.\<close>

definition connectedClient :: DysonClient where
  "connectedClient =
     newClient\<lparr>authToken := Some ''token'', devices := [toDevice purifier],
               sent := [PostAuthenticate ''user@example.com'' ''secret'',
                        GetManifest (Some ''token'')]\<rparr>"

section \<open>Comparing numbers\<close>

text \<open>The comparisons of two finite doubles are those of the rationals they stand for.\<close>

lemma valueOf_shl: "k \<le> e \<Longrightarrow> valueOf m e = of_int (shl m (e - k)) * 2 powi k"
proof -
  assume le: "k \<le> e"
  have "(2::rat) powi e = 2 powi (e - k) * 2 powi k"
    by (simp flip: power_int_add)
  moreover have "(2::rat) powi (e - k) = 2 ^ nat (e - k)"
    using le by (simp add: power_int_def)
  ultimately show ?thesis
    using le by (simp add: valueOf_def shl_def)
qed

lemma num_le_Fin: "num_le (Fin m e) (Fin m' e') \<longleftrightarrow> valueOf m e \<le> valueOf m' e'"
proof -
  have pos: "(0::rat) < 2 powi min e e'" by simp
  show ?thesis
    unfolding num_le.simps valueOf_shl [of "min e e'" e m, OF min.cobounded1]
      valueOf_shl [of "min e e'" e' m', OF min.cobounded2]
    by (simp add: mult_le_cancel_right_pos [OF pos])
qed

lemma num_lt_Fin: "num_lt (Fin m e) (Fin m' e') \<longleftrightarrow> valueOf m e < valueOf m' e'"
proof -
  have pos: "(0::rat) < 2 powi min e e'" by simp
  show ?thesis
    unfolding num_lt.simps valueOf_shl [of "min e e'" e m, OF min.cobounded1]
      valueOf_shl [of "min e e'" e' m', OF min.cobounded2]
    by (simp add: mult_less_cancel_right_pos [OF pos])
qed

declare num_le.simps(13) [simp del] num_lt.simps(13) [simp del]

lemma band_literals:
  "num 12 = Fin 6755399441055744 (- 49)"
  "num 35 = Fin 4925812092436480 (- 47)"
  "num 55 = Fin 7740561859543040 (- 47)"
  "num 150 = Fin 5277655813324800 (- 45)"
  "num 250 = Fin 8796093022208000 (- 45)"
  by code_simp+

lemma band_values:
  "valueOf 6755399441055744 (- 49) = 12"
  "valueOf 4925812092436480 (- 47) = 35"
  "valueOf 7740561859543040 (- 47) = 55"
  "valueOf 5277655813324800 (- 45) = 150"
  "valueOf 8796093022208000 (- 45) = 250"
  by (simp_all add: valueOf_def power_int_minus)


section \<open>Air-quality bands\<close>

lemma level_closed:
  "getAirQualityLevel (num 12) = ''Good''"
  "getAirQualityLevel (decimal 1201 2) = ''Moderate''"
  "getAirQualityLevel NegInfinity = ''Good''"
  "getAirQualityLevel PosInfinity = ''Hazardous''"
  by code_simp+

lemma level_Fin:
  "getAirQualityLevel (Fin m e) =
     (if valueOf m e \<le> 12 then ''Good''
      else if valueOf m e \<le> 35 then ''Moderate''
      else if valueOf m e \<le> 55 then ''Unhealthy for Sensitive Groups''
      else if valueOf m e \<le> 150 then ''Unhealthy''
      else if valueOf m e \<le> 250 then ''Very Unhealthy''
      else ''Hazardous'')"
  unfolding getAirQualityLevel_def band_literals num_le_Fin band_values ..

lemma level_range:
  "getAirQualityLevel v \<in> set [''Good'', ''Moderate'', ''Unhealthy for Sensitive Groups'',
       ''Unhealthy'', ''Very Unhealthy'', ''Hazardous'']"
  unfolding getAirQualityLevel_def by simp


lemma level_bands:
  "valueOf a i \<le> 12 \<Longrightarrow> getAirQualityLevel (Fin a i) = ''Good''"
  "12 < valueOf a i \<Longrightarrow> valueOf a i \<le> 35 \<Longrightarrow> getAirQualityLevel (Fin a i) = ''Moderate''"
  "35 < valueOf a i \<Longrightarrow> valueOf a i \<le> 55
     \<Longrightarrow> getAirQualityLevel (Fin a i) = ''Unhealthy for Sensitive Groups''"
  "55 < valueOf a i \<Longrightarrow> valueOf a i \<le> 150 \<Longrightarrow> getAirQualityLevel (Fin a i) = ''Unhealthy''"
  "150 < valueOf a i \<Longrightarrow> valueOf a i \<le> 250
     \<Longrightarrow> getAirQualityLevel (Fin a i) = ''Very Unhealthy''"
  "250 < valueOf a i \<Longrightarrow> getAirQualityLevel (Fin a i) = ''Hazardous''"
  by (simp_all add: level_Fin)

text \<open>
  C8. \<open>getAirQualityLevel\<close> maps every pm25 value to one of the six labels, and the bands
  have inclusive upper bounds: a value of at most 12 is Good, above 12 and at most 35
  Moderate, above 35 and at most 55 Unhealthy for Sensitive Groups, above 55 and at most
  150 Unhealthy, above 150 and at most 250 Very Unhealthy, above 250 Hazardous. A boundary
  value belongs to the lower band: exactly 12 is Good and 12.01 is Moderate.
\<close>

theorem getAirQualityLevel_bands:
  "getAirQualityLevel v \<in> set [''Good'', ''Moderate'', ''Unhealthy for Sensitive Groups'',
       ''Unhealthy'', ''Very Unhealthy'', ''Hazardous'']
   \<and> (valueOf a i \<le> 12 \<longrightarrow> getAirQualityLevel (Fin a i) = ''Good'')
   \<and> (12 < valueOf b j \<and> valueOf b j \<le> 35 \<longrightarrow> getAirQualityLevel (Fin b j) = ''Moderate'')
   \<and> (35 < valueOf c k \<and> valueOf c k \<le> 55
        \<longrightarrow> getAirQualityLevel (Fin c k) = ''Unhealthy for Sensitive Groups'')
   \<and> (55 < valueOf d l \<and> valueOf d l \<le> 150 \<longrightarrow> getAirQualityLevel (Fin d l) = ''Unhealthy'')
   \<and> (150 < valueOf e m \<and> valueOf e m \<le> 250
        \<longrightarrow> getAirQualityLevel (Fin e m) = ''Very Unhealthy'')
   \<and> (250 < valueOf f n \<longrightarrow> getAirQualityLevel (Fin f n) = ''Hazardous'')
   \<and> getAirQualityLevel NegInfinity = ''Good''
   \<and> getAirQualityLevel PosInfinity = ''Hazardous''
   \<and> getAirQualityLevel (num 12) = ''Good''
   \<and> getAirQualityLevel (decimal 1201 2) = ''Moderate''"
  using level_range [of v] level_closed level_bands by blast

theorem getAirQualityLevel_bands_witness:
  "getAirQualityLevel (Fin 12 0) = ''Good''
   \<and> getAirQualityLevel (Fin 35 0) = ''Moderate''
   \<and> getAirQualityLevel (Fin 55 0) = ''Unhealthy for Sensitive Groups''
   \<and> getAirQualityLevel (Fin 150 0) = ''Unhealthy''
   \<and> getAirQualityLevel (Fin 250 0) = ''Very Unhealthy''
   \<and> getAirQualityLevel (Fin 501 (- 1)) = ''Hazardous''"
proof -
  have h: "valueOf 12 0 \<le> 12" "12 < valueOf 35 0 \<and> valueOf 35 0 \<le> 35"
    "35 < valueOf 55 0 \<and> valueOf 55 0 \<le> 55" "55 < valueOf 150 0 \<and> valueOf 150 0 \<le> 150"
    "150 < valueOf 250 0 \<and> valueOf 250 0 \<le> 250" "250 < valueOf 501 (- 1)"
    by (simp_all add: valueOf_def)
  show ?thesis
    using getAirQualityLevel_bands [of NaN 12 0 35 0 55 0 150 0 250 0 501 "- 1"] h by blast
qed

section \<open>The doubles of integers\<close>

text \<open>An integer below \<open>2 ^ 53\<close> is a double: rounding it changes nothing.\<close>

lemma bitlen_one: "bitlen 1 = 1"
  by (simp add: bitlen_alt_def)

lemma nearestEven_one: "nearestEven x 1 = x"
  by (simp add: nearestEven_def)

lemma nearestEven_ge: "0 < b \<Longrightarrow> a div b \<le> nearestEven a b"
  by (simp add: nearestEven_def Let_def)

lemma valueOf_exact: "d \<le> 52 \<Longrightarrow> valueOf (a * 2 ^ nat (52 - d)) (d - 52) = of_int a"
proof -
  assume d: "d \<le> 52"
  have "(2::rat) ^ nat (52 - d) = 2 powi (52 - d)"
    using d by (simp add: power_int_def)
  moreover have "(2::rat) powi (52 - d) * 2 powi (d - 52) = 1"
    by (simp flip: power_int_add)
  ultimately show ?thesis
    by (simp add: valueOf_def mult.assoc)
qed

lemma roundPos_int:
  assumes "0 < a"
  shows "roundPos a 1 0 =
     (if nearestEven (shl a (53 - bitlen a)) (shl 1 (bitlen a - 53)) = 0 then Fin 0 0
      else if nearestEven (shl a (53 - bitlen a)) (shl 1 (bitlen a - 53)) = 2 ^ 53
           then (if 971 \<le> bitlen a - 53 then PosInfinity else Fin (2 ^ 52) (bitlen a - 53 + 1))
      else if 971 < bitlen a - 53 then PosInfinity
      else Fin (nearestEven (shl a (53 - bitlen a)) (shl 1 (bitlen a - 53))) (bitlen a - 53))"
proof -
  define d where "d = bitlen a - 1"
  have d0: "0 \<le> d"
    using assms bitlen_eq_zero_iff [of a] bitlen_nonneg [of a] by (simp add: d_def)
  have "2 ^ nat d \<le> a"
    using bitlen_bounds [OF assms] by (simp add: d_def)
  moreover have "shl 1 d = 2 ^ nat d" using d0 by (simp add: shl_def)
  moreover have "shl a (- d) = a" using d0 by (cases "d = 0") (simp_all add: shl_def)
  ultimately have c: "(shl 1 d \<le> shl a (- d)) = True" by simp
  have m: "max d (- 1022) = d" using d0 by simp
  have r: "d - 52 = bitlen a - 53" "0 - (bitlen a - 53) = 53 - bitlen a"
    "bitlen a - 53 - 0 = bitlen a - 53"
    by (simp_all add: d_def)
  show ?thesis
    unfolding roundPos_def bitlen_one d_def [symmetric] Let_def c if_True add_0 m
    by (simp only: r)
qed

lemma roundPos_small:
  assumes "0 < a" "a < 2 ^ 53"
  shows "roundPos a 1 0 = Fin (a * 2 ^ nat (53 - bitlen a)) (bitlen a - 53)"
proof -
  have d52: "bitlen a \<le> 53"
    using assms(2) bitlen_le_iff_power [of a 53] by simp
  have d0: "1 \<le> bitlen a"
    using assms(1) bitlen_eq_zero_iff [of a] bitlen_nonneg [of a] by simp
  have s3: "shl a (53 - bitlen a) = a * 2 ^ nat (53 - bitlen a)"
    using d52 by (simp add: shl_def)
  have s4: "shl 1 (bitlen a - 53) = 1"
    using d52 by (cases "bitlen a = 53") (simp_all add: shl_def)
  have q: "0 < a * 2 ^ nat (53 - bitlen a)" using assms(1) by simp
  have "a * 2 ^ nat (53 - bitlen a) < 2 ^ nat (bitlen a) * 2 ^ nat (53 - bitlen a)"
    using bitlen_bounds [OF assms(1)] by simp
  also have "\<dots> = 2 ^ 53"
    using d0 d52 by (simp flip: power_add add: nat_add_distrib [symmetric])
  finally have q': "a * 2 ^ nat (53 - bitlen a) < 2 ^ 53" .
  have n: "(a * 2 ^ nat (53 - bitlen a) = 0) = False"
    "(a * 2 ^ nat (53 - bitlen a) = 2 ^ 53) = False" "(971 < bitlen a - 53) = False"
    using q q' d52 assms(1) by simp_all
  show ?thesis
    unfolding roundPos_int [OF assms(1)] s3 s4 nearestEven_one n if_False ..
qed

lemma roundPos_big:
  assumes "2 ^ 53 \<le> a"
  shows "roundPos a 1 0 = PosInfinity
         \<or> (\<exists>m e. roundPos a 1 0 = Fin m e \<and> 2 ^ 52 \<le> m \<and> 1 \<le> e)"
proof -
  have a0: "0 < a" using assms by (simp add: less_le_trans [of 0 "2 ^ 53"])
  have d53: "54 \<le> bitlen a"
    using assms bitlen_le_iff_power [of a 53] by simp
  have s3: "shl a (53 - bitlen a) = a" using d53 by (simp add: shl_def)
  have s4: "shl 1 (bitlen a - 53) = 2 ^ nat (bitlen a - 53)" using d53 by (simp add: shl_def)
  have "nat (bitlen a - 1) = 52 + nat (bitlen a - 53)"
    using d53 by simp
  then have "(2::int) ^ nat (bitlen a - 1) = 2 ^ 52 * 2 ^ nat (bitlen a - 53)"
    by (simp add: power_add)
  then have "2 ^ 52 * 2 ^ nat (bitlen a - 53) \<le> a"
    using bitlen_bounds [OF a0] by simp
  then have "(2 ^ 52 * 2 ^ nat (bitlen a - 53)) div 2 ^ nat (bitlen a - 53)
               \<le> a div 2 ^ nat (bitlen a - 53)"
    by (rule zdiv_mono1) simp
  then have "2 ^ 52 \<le> a div 2 ^ nat (bitlen a - 53)"
    by simp
  then have q: "2 ^ 52 \<le> nearestEven a (2 ^ nat (bitlen a - 53))"
    using nearestEven_ge [of "2 ^ nat (bitlen a - 53)" a] by simp
  show ?thesis
    unfolding roundPos_int [OF a0] s3 s4 using q d53 by auto
qed


lemma valueOf_neg: "valueOf (- m) e = - valueOf m e"
  by (simp add: valueOf_def)

lemma valueOf_big: "2 ^ 52 \<le> m \<Longrightarrow> 1 \<le> e \<Longrightarrow> 2 ^ 52 \<le> valueOf m e"
proof -
  assume m: "2 ^ 52 \<le> m" and e: "1 \<le> e"
  have "(1::rat) \<le> 2 powi e"
    using e by (simp add: one_le_power_int)
  moreover have "(2::rat) ^ 52 \<le> of_int m"
    using m by (metis of_int_le_iff of_int_numeral of_int_power)
  ultimately have "(2::rat) ^ 52 * 1 \<le> of_int m * 2 powi e"
    by (intro mult_mono) simp_all
  then show ?thesis by (simp add: valueOf_def)
qed

lemma num_literals:
  "num 0 = Fin 0 0"
  "num 1 = Fin 4503599627370496 (- 52)"
  "num 10 = Fin 5629499534213120 (- 49)"
  by code_simp+

lemma num_literal_values:
  "valueOf 0 0 = 0"
  "valueOf 4503599627370496 (- 52) = 1"
  "valueOf 5629499534213120 (- 49) = 10"
  by (simp_all add: valueOf_def power_int_minus)

text \<open>
  The double of a positive integer below \<open>2 ^ 53\<close> is that integer; the double of a
  larger one is at least \<open>2 ^ 52\<close>, or Infinity.
\<close>

lemma num_pos:
  assumes "0 < n"
  shows "num n = PosInfinity \<and> 2 ^ 53 \<le> n
         \<or> (\<exists>m e. num n = Fin m e \<and> (if n < 2 ^ 53 then valueOf m e = of_int n
                                       else 2 ^ 52 \<le> valueOf m e))"
proof (cases "n < 2 ^ 53")
  case True
  have "valueOf (n * 2 ^ nat (53 - bitlen n)) (bitlen n - 53) = of_int n"
    using valueOf_exact [of "bitlen n - 1" n] bitlen_le_iff_power [of n 53] True
    by (simp add: algebra_simps)
  then show ?thesis
    using True assms roundPos_small [OF assms True] by (simp add: num_def roundDouble_def)
next
  case False
  then have big: "2 ^ 53 \<le> n" by simp
  show ?thesis
    using roundPos_big [OF big] valueOf_big assms False big
    by (auto simp add: num_def roundDouble_def)
qed

lemma num_range:
  assumes "\<not> num_lt (num n) (num 1)" "\<not> num_lt (num 10) (num n)"
  shows "1 \<le> n \<and> n \<le> 10"
proof -
  consider "n = 0" | "n < 0" | "0 < n" by linarith
  then show ?thesis
  proof cases
    case 1
    then show ?thesis
      using assms(1) by (simp add: num_literals num_lt_Fin num_literal_values)
  next
    case 2
    then have p: "0 < - n" by simp
    have eq: "num n = num_neg (num (- n))"
      using 2 by (simp add: num_def roundDouble_def)
    from num_pos [OF p] show ?thesis
    proof (elim disjE conjE exE)
      assume "num (- n) = PosInfinity"
      then show ?thesis using assms(1) by (simp add: eq num_literals)
    next
      fix m e assume f: "num (- n) = Fin m e"
        and v: "if - n < 2 ^ 53 then valueOf m e = of_int (- n) else 2 ^ 52 \<le> valueOf m e"
      have "0 < valueOf m e" using v p by (auto split: if_splits)
      then show ?thesis
        using assms(1)
        by (simp add: eq f num_literals num_lt_Fin num_literal_values valueOf_neg)
    qed
  next
    case 3
    from num_pos [OF 3] show ?thesis
    proof (elim disjE conjE exE)
      assume "num n = PosInfinity"
      then show ?thesis using assms(2) by (simp add: num_literals)
    next
      fix m e assume f: "num n = Fin m e"
        and v: "if n < 2 ^ 53 then valueOf m e = of_int n else 2 ^ 52 \<le> valueOf m e"
      show ?thesis
      proof (cases "n < 2 ^ 53")
        case True
        then have "valueOf m e = of_int n" using v by simp
        then show ?thesis
          using assms by (simp add: f num_literals num_lt_Fin num_literal_values not_less)
      next
        case False
        then have "2 ^ 52 \<le> valueOf m e" using v by simp
        then have "10 < valueOf m e" by simp
        then show ?thesis
          using assms(2) by (simp add: f num_literals num_lt_Fin num_literal_values)
      qed
    qed
  qed
qed

lemma speed_cases:
  "1 \<le> v \<Longrightarrow> v \<le> 10 \<Longrightarrow>
    v = (10::int) \<or> v = 9 \<or> v = 8 \<or> v = 7 \<or> v = 6 \<or> v = 5 \<or> v = 4 \<or> v = 3 \<or> v = 2 \<or> v = 1"
  by presburger

lemma speed_codes:
  assumes "1 \<le> n" "n \<le> 10"
  shows "toString (num n) = dec (nat n)"
    and "padStart (toString (num n)) 4 CHR ''0'' = zeros (4 - numDigits n) @ dec (nat n)"
    and "length (padStart (toString (num n)) 4 CHR ''0'') = 4"
    and "parseFanSpeed (padStart (toString (num n)) 4 CHR ''0'') = dec (nat n)"
    and "\<not> num_lt (num n) (num 1)" and "\<not> num_lt (num 10) (num n)"
  using speed_cases [OF assms]
  by (elim disjE; hypsubst; code_simp)+

section \<open>What the requests of the client do\<close>

lemma patchBodies_append: "patchBodies (xs @ ys) = patchBodies xs @ patchBodies ys"
  by (induction xs rule: patchBodies.induct) simp_all

lemma authenticate_facts:
  assumes "authenticate net c = (r, c')"
  shows "sent c' = sent c @ [PostAuthenticate (email c) (password c)]"
    and "devices c' = devices c" and "email c' = email c" and "password c' = password c"
    and "r = Inl e \<Longrightarrow> fetchError e"
  using assms
  by (auto simp add: authenticate_def split: response.splits if_splits)


lemma ensureToken_facts:
  assumes "ensureToken net c = (r, c')"
  shows "sent c' = sent c \<or> sent c' = sent c @ [PostAuthenticate (email c) (password c)]"
    and "devices c' = devices c" and "email c' = email c" and "password c' = password c"
    and "r = Inl e \<Longrightarrow> fetchError e"
proof -
  show "sent c' = sent c \<or> sent c' = sent c @ [PostAuthenticate (email c) (password c)]"
    using assms authenticate_facts(1) [of net c r c']
    by (cases "truthy (authToken c)") (simp_all add: ensureToken_def)
  show "devices c' = devices c"
    using assms authenticate_facts(2) [of net c r c']
    by (cases "truthy (authToken c)") (simp_all add: ensureToken_def)
  show "email c' = email c"
    using assms authenticate_facts(3) [of net c r c']
    by (cases "truthy (authToken c)") (auto simp add: ensureToken_def)
  show "password c' = password c"
    using assms authenticate_facts(4) [of net c r c']
    by (cases "truthy (authToken c)") (auto simp add: ensureToken_def)
  show "r = Inl e \<Longrightarrow> fetchError e"
    using assms authenticate_facts(5) [of net c r c' e]
    by (cases "truthy (authToken c)") (auto simp add: ensureToken_def)
qed

lemma getDevices_fetched:
  assumes "getDevices net c = Some y"
  shows "fetched c y"
proof (rule getDevices.raw_induct [where P = "\<lambda>net c y. fetched c y", OF _ assms], goal_cases)
  case (1 f net c y)
  note IH = 1(1) and body = 1(2)
  obtain r1 c1 where e: "ensureToken net c = (r1, c1)" by (cases "ensureToken net c")
  have s1: "\<exists>rs. sent c1 = sent c @ rs \<and> patchBodies rs = []"
    using ensureToken_facts(1) [OF e] by auto
  show ?case
  proof (cases r1)
    case (Inl e1)
    then show ?thesis
      using body e s1 ensureToken_facts(5) [OF e] by (auto simp add: fetched_def)
  next
    case (Inr u)
    show ?thesis
    proof (cases "manifestReply net (length (sent c1)) (authToken c1)")
      case NetworkError
      then show ?thesis
        using body e Inr s1 by (auto simp add: fetched_def patchBodies_append)
    next
      case (Response status data)
      define c1' where "c1' = c1\<lparr>sent := sent c1 @ [GetManifest (authToken c1)], authToken := None\<rparr>"
      consider "ok status" | "\<not> ok status" "status \<noteq> 401" | "\<not> ok status" "status = 401"
        by blast
      then show ?thesis
      proof cases
        case 1
        then show ?thesis
          using body
            e Inr s1 Response by (auto simp add: fetched_def patchBodies_append)
      next
        case 2
        then show ?thesis
          using body
            e Inr s1 Response by (auto simp add: fetched_def patchBodies_append)
      next
        case 3
        obtain r2 c2 where e2: "authenticate net c1' = (r2, c2)" by (cases "authenticate net c1'")
        have s2: "sent c2 = sent c1 @ [GetManifest (authToken c1), PostAuthenticate (email c1) (password c1)]"
          using authenticate_facts(1) [OF e2] by (simp add: c1'_def)
        then have s3: "\<exists>rs. sent c2 = sent c @ rs \<and> patchBodies rs = []"
          using s1 by (auto simp add: patchBodies_append)
        show ?thesis
        proof (cases r2)
          case (Inl e3)
          then show ?thesis
            using body
              e \<open>r1 = Inr u\<close> Response 3 e2 s3 authenticate_facts(5) [OF e2]
            by (auto simp add: fetched_def c1'_def [symmetric])
        next
          case (Inr u2)
          then have "f net c2 = Some y"
            using body
              e \<open>r1 = Inr u\<close> Response 3 e2
            by (simp add: c1'_def [symmetric])
          then have "fetched c2 y" by (rule IH)
          then show ?thesis
            using s3 by (auto simp add: fetched_def patchBodies_append)
        qed
      qed
    qed
  qed
qed

lemma authenticate_ok:
  "authenticateReply net (length (sent c)) (email c) (password c) = Response status a
   \<Longrightarrow> ok status
   \<Longrightarrow> authenticate net c =
       (Inr (), c\<lparr>sent := sent c @ [PostAuthenticate (email c) (password c)],
                   authToken := Some a\<rparr>)"
  by (simp add: authenticate_def)

lemma ensureToken_ok:
  assumes "\<forall>i e p. \<exists>a. authenticateReply net i e p = Response 200 a"
  shows "\<exists>c1. ensureToken net c = (Inr (), c1)"
proof (cases "truthy (authToken c)")
  case True
  then show ?thesis by (simp add: ensureToken_def)
next
  case False
  obtain a where "authenticateReply net (length (sent c)) (email c) (password c) = Response 200 a"
    using assms by blast
  then show ?thesis
    using False authenticate_ok [of net c 200 a] by (simp add: ensureToken_def ok_def)
qed

text \<open>
  A cloud that accepts the credentials and rejects the manifest every time keeps
  \<^verbatim>\<open>getDevices\<close> calling itself: the call never returns.
\<close>

lemma getDevices_diverges:
  assumes auth: "\<forall>i e p. \<exists>a. authenticateReply net i e p = Response 200 a"
    and manifest: "\<forall>i t. \<exists>d. manifestReply net i t = Response 401 d"
  shows "getDevices net c = None"
proof (rule ccontr)
  assume "getDevices net c \<noteq> None"
  then obtain y where y: "getDevices net c = Some y" by auto
  have "\<not> ((\<forall>i e p. \<exists>a. authenticateReply net i e p = Response 200 a)
            \<and> (\<forall>i t. \<exists>d. manifestReply net i t = Response 401 d))"
  proof (rule getDevices.raw_induct
      [where P = "\<lambda>net c y. \<not> ((\<forall>i e p. \<exists>a. authenticateReply net i e p = Response 200 a)
            \<and> (\<forall>i t. \<exists>d. manifestReply net i t = Response 401 d))", OF _ y], goal_cases)
    case (1 f net c y)
    note IH = 1(1) and body = 1(2)
    show ?case
    proof
      assume a: "(\<forall>i e p. \<exists>a. authenticateReply net i e p = Response 200 a)
              \<and> (\<forall>i t. \<exists>d. manifestReply net i t = Response 401 d)"
      obtain c1 where e: "ensureToken net c = (Inr (), c1)"
        using ensureToken_ok a by blast
      obtain d where m: "manifestReply net (length (sent c1)) (authToken c1) = Response 401 d"
        using a by blast
      define c1' where
        "c1' = c1\<lparr>sent := sent c1 @ [GetManifest (authToken c1)], authToken := None\<rparr>"
      obtain t where
        "authenticateReply net (length (sent c1')) (email c1') (password c1') = Response 200 t"
        using a by blast
      then obtain c2 where e2: "authenticate net c1' = (Inr (), c2)"
        using authenticate_ok [of net c1' 200 t] by (simp add: ok_def)
      have "f net c2 = Some y"
        using body e2 by (simp add: e m ok_def c1'_def [symmetric])
      from IH [OF this] a show False by blast
    qed
  qed
  with auth manifest show False by blast
qed

section \<open>Resolving a device\<close>

lemma ensureDevices_fetched:
  assumes "ensureDevices net c = Some y"
  shows "fetched c y"
proof (cases "devices c = []")
  case True
  then show ?thesis using assms getDevices_fetched by (simp add: ensureDevices_def)
next
  case False
  then have "y = (Inr (devices c), c)" using assms by (simp add: ensureDevices_def)
  then show ?thesis by (simp add: fetched_def)
qed

text \<open>The cases of \<^verbatim>\<open>getDevice\<close>, once the directory is there.\<close>

lemma getDevice_cases:
  assumes "ensureDevices net c = Some (Inr ds, c1)"
  shows "devices c1 = ds"
    and "getDevice net c None =
           Some (if ds = [] then Inl NoDevicesFound else Inr (hd ds), c1)"
    and "getDevice net c (Some []) =
           Some (if ds = [] then Inl NoDevicesFound else Inr (hd ds), c1)"
    and "i \<noteq> [] \<Longrightarrow> getDevice net c (Some i) =
           Some (case find (\<lambda>d. DysonDevice.serial d = i) ds of
                   None \<Rightarrow> Inl (DeviceNotFound i) | Some d \<Rightarrow> Inr d, c1)"
proof -
  show d: "devices c1 = ds"
    using ensureDevices_fetched [OF assms] by (simp add: fetched_def)
  show "getDevice net c None = Some (if ds = [] then Inl NoDevicesFound else Inr (hd ds), c1)"
    using assms d by (simp add: getDevice_def ifTruthy_def)
  show "getDevice net c (Some []) = Some (if ds = [] then Inl NoDevicesFound else Inr (hd ds), c1)"
    using assms d by (simp add: getDevice_def ifTruthy_def)
  show "i \<noteq> [] \<Longrightarrow> getDevice net c (Some i) =
           Some (case find (\<lambda>d. DysonDevice.serial d = i) ds of
                   None \<Rightarrow> Inl (DeviceNotFound i) | Some d \<Rightarrow> Inr d, c1)"
    using assms d by (simp add: getDevice_def ifTruthy_def split: option.splits)
qed

lemma getDevice_Some:
  assumes "getDevice net c deviceId = Some (r, c1)"
  shows "\<exists>ds. ensureDevices net c = Some (Inr ds, c1) \<or> (\<exists>e. ensureDevices net c = Some (Inl e, c1) \<and> r = Inl e)"
  using assms
  by (auto simp add: getDevice_def ifTruthy_def split: option.splits sum.splits prod.splits if_splits)

text \<open>
  C6, as the claim states it, fails: it says that every given id that is not in the
  directory signals \<open>DeviceNotFound\<close>. \<^verbatim>\<open>if (deviceId)\<close> takes the empty string for an
  omitted id: with a directory whose only serial is not empty, \<^verbatim>\<open>getDevice('')\<close> returns
  the first device.
\<close>

theorem getDevice_empty_id_counterexample:
  "[] \<notin> set (map DysonDevice.serial (devices connectedClient))
   \<and> getDevice cloud connectedClient (Some []) = Some (Inr (toDevice purifier), connectedClient)"
  by code_simp

text \<open>
  C6, amended. \<open>getDevice\<close> fetches the directory first if it is empty. Once the directory
  is there (\<open>ds\<close>, after the fetch when there was one): every given id that is not empty
  and is the serial of no entry signals \<open>DeviceNotFound\<close> of that id; a given id that is
  not empty and is a serial gives the first entry with that serial; with the id omitted,
  or empty, the result is the first entry in directory order, and \<open>NoDevicesFound\<close> if the
  directory is still empty.
\<close>

theorem getDevice_resolves:
  assumes "ensureDevices net c = Some (Inr ds, c1)"
  shows "ensureDevices net c = (if devices c = [] then getDevices net c else Some (Inr (devices c), c))
    \<and> devices c1 = ds
    \<and> (i \<noteq> [] \<and> i \<notin> set (map DysonDevice.serial ds)
         \<longrightarrow> getDevice net c (Some i) = Some (Inl (DeviceNotFound i), c1))
    \<and> (j \<noteq> [] \<and> find (\<lambda>d. DysonDevice.serial d = j) ds = Some device
         \<longrightarrow> getDevice net c (Some j) = Some (Inr device, c1))
    \<and> getDevice net c None = Some (if ds = [] then Inl NoDevicesFound else Inr (hd ds), c1)
    \<and> getDevice net c (Some []) = Some (if ds = [] then Inl NoDevicesFound else Inr (hd ds), c1)"
proof -
  have "find (\<lambda>d. DysonDevice.serial d = i) ds = None" if "i \<notin> set (map DysonDevice.serial ds)"
    using that by (auto simp add: find_None_iff)
  then show ?thesis
    using getDevice_cases [OF assms] by (simp add: ensureDevices_def)
qed

theorem getDevice_resolves_witness:
  "getDevice cloud newClient (Some ''nope'') = Some (Inl (DeviceNotFound ''nope''), connectedClient)
   \<and> getDevice cloud newClient (Some ''A1B-EU-KDA0001A'')
       = Some (Inr (toDevice purifier), connectedClient)
   \<and> getDevice cloud newClient None = Some (Inr (toDevice purifier), connectedClient)
   \<and> getDevice cloudEmpty newClient None
       = Some (Inl NoDevicesFound,
               newClient\<lparr>authToken := Some ''token'',
                         sent := [PostAuthenticate ''user@example.com'' ''secret'',
                                  GetManifest (Some ''token'')]\<rparr>)"
proof -
  have h: "ensureDevices cloud newClient = Some (Inr [toDevice purifier], connectedClient)"
    by code_simp
  have e: "ensureDevices cloudEmpty newClient
             = Some (Inr [], newClient\<lparr>authToken := Some ''token'',
                         sent := [PostAuthenticate ''user@example.com'' ''secret'',
                                  GetManifest (Some ''token'')]\<rparr>)"
    by code_simp
  have i: "''nope'' \<noteq> [] \<and> ''nope'' \<notin> set (map DysonDevice.serial [toDevice purifier])"
    by code_simp
  have j: "''A1B-EU-KDA0001A'' \<noteq> []
      \<and> find (\<lambda>d. DysonDevice.serial d = ''A1B-EU-KDA0001A'') [toDevice purifier]
          = Some (toDevice purifier)"
    by code_simp
  show ?thesis
    using getDevice_resolves [OF h, of "''nope''" "''A1B-EU-KDA0001A''" "toDevice purifier"]
      getDevice_resolves [OF e] i j
    by simp
qed

section \<open>Reading and writing the state\<close>

text \<open>A device that \<^verbatim>\<open>getDevice\<close> has returned is found again under its serial.\<close>

lemma find_first: "xs \<noteq> [] \<Longrightarrow> P (hd xs) \<Longrightarrow> find P xs = Some (hd xs)"
  by (cases xs) simp_all

lemma getDevice_again:
  assumes g: "getDevice net c deviceId = Some (Inr d, c2)" and same: "devices c' = devices c2"
  shows "getDevice net c' (Some (DysonDevice.serial d)) = Some (Inr d, c')"
proof -
  obtain ds where e: "ensureDevices net c = Some (Inr ds, c2)"
    using getDevice_Some [OF g] by auto
  note cs = getDevice_cases [OF e]
  have ds: "devices c2 = ds" by (rule cs(1))
  have r: "(ds \<noteq> [] \<and> d = hd ds)
           \<or> (DysonDevice.serial d \<noteq> [] \<and> find (\<lambda>x. DysonDevice.serial x = DysonDevice.serial d) ds = Some d)"
  proof (cases deviceId)
    case None
    then show ?thesis using g cs(2) by (auto split: if_splits)
  next
    case (Some i)
    show ?thesis
    proof (cases "i = []")
      case True
      then show ?thesis using g cs(3) Some by (auto split: if_splits)
    next
      case False
      then have "find (\<lambda>x. DysonDevice.serial x = i) ds = Some d"
        using g cs(4) [OF False] Some by (auto split: option.splits)
      moreover from this have "DysonDevice.serial d = i"
        by (auto simp add: find_Some_iff)
      ultimately show ?thesis using False by simp
    qed
  qed
  have ne: "ds \<noteq> []" using r by auto
  have e': "ensureDevices net c' = Some (Inr ds, c')"
    using ne same ds by (simp add: ensureDevices_def)
  note cs' = getDevice_cases [OF e']
  show ?thesis
  proof (cases "DysonDevice.serial d = []")
    case True
    then show ?thesis using r ne cs'(3) by auto
  next
    case False
    have "find (\<lambda>x. DysonDevice.serial x = DysonDevice.serial d) ds = Some d"
      using r find_first [of ds "\<lambda>x. DysonDevice.serial x = DysonDevice.serial d"] by auto
    then show ?thesis using cs'(4) [OF False] by simp
  qed
qed

lemma getDeviceStatus_read:
  assumes "ensureToken net c = (Inr (), c1)"
    and "getDevice net c1 deviceId = Some (Inr device, c2)"
  shows "getDeviceStatus net c deviceId =
     (case stateReply net (length (sent c2)) (DysonDevice.serial device) (authToken c2) of
        NetworkError \<Rightarrow>
          Some (Inl TransportFailure,
                c2\<lparr>sent := sent c2 @ [GetState (DysonDevice.serial device) (authToken c2)]\<rparr>)
      | Response status state \<Rightarrow>
          Some (if ok status then Inr (toStatus device state) else Inl (GetStatusFailed status),
                c2\<lparr>sent := sent c2 @ [GetState (DysonDevice.serial device) (authToken c2)]\<rparr>))"
  using assms by (simp add: getDeviceStatus_def split: response.splits)

text \<open>
  What \<open>setDeviceState\<close> does once it holds a session, has resolved the device and has
  an answer to the update: after a success it is \<open>getDeviceStatus\<close> for the serial of
  that device, which ensures the session again, finds the same device and reads its state.
\<close>

lemma setDeviceState_reread:
  assumes t: "ensureToken net c = (Inr (), c1)"
    and g: "getDevice net c1 deviceId = Some (Inr device, c2)"
    and u: "updateReply net (length (sent c2)) (DysonDevice.serial device) (authToken c2) state
           = Response status body"
  shows "setDeviceState net c deviceId state =
     (if ok status
      then (case ensureToken net
                   (c2\<lparr>sent := sent c2 @
                         [PatchState (DysonDevice.serial device) (authToken c2) state]\<rparr>) of
              (Inl e, c4) \<Rightarrow> Some (Inl e, c4)
            | (Inr _, c4) \<Rightarrow>
                (case stateReply net (length (sent c4)) (DysonDevice.serial device)
                        (authToken c4) of
                   NetworkError \<Rightarrow>
                     Some (Inl TransportFailure,
                           c4\<lparr>sent := sent c4 @
                                 [GetState (DysonDevice.serial device) (authToken c4)]\<rparr>)
                 | Response status' fresh \<Rightarrow>
                     Some (if ok status' then Inr (toStatus device fresh)
                           else Inl (GetStatusFailed status'),
                           c4\<lparr>sent := sent c4 @
                                 [GetState (DysonDevice.serial device) (authToken c4)]\<rparr>)))
      else Some (Inl (StateUpdateFailed status),
                 c2\<lparr>sent := sent c2 @
                       [PatchState (DysonDevice.serial device) (authToken c2) state]\<rparr>))"
proof (cases "ok status")
  case False
  then show ?thesis using assms by (simp add: setDeviceState_def)
next
  case True
  define c3 where
    "c3 = c2\<lparr>sent := sent c2 @ [PatchState (DysonDevice.serial device) (authToken c2) state]\<rparr>"
  have s: "setDeviceState net c deviceId state
          = getDeviceStatus net c3 (Some (DysonDevice.serial device))"
    using assms True by (simp add: setDeviceState_def c3_def)
  obtain r4 c4 where e4: "ensureToken net c3 = (r4, c4)" by (cases "ensureToken net c3")
  show ?thesis
  proof (cases r4)
    case (Inl e)
    then show ?thesis
      unfolding s using True e4 by (simp add: getDeviceStatus_def c3_def [symmetric])
  next
    case (Inr x)
    then have e4': "ensureToken net c3 = (Inr (), c4)" using e4 by simp
    have "devices c4 = devices c2"
      using ensureToken_facts(2) [OF e4] by (simp add: c3_def)
    then have g4: "getDevice net c4 (Some (DysonDevice.serial device)) = Some (Inr device, c4)"
      using getDevice_again [OF g, of c4] by simp
    show ?thesis
      unfolding s getDeviceStatus_read [OF e4' g4]
      using True e4' by (simp add: c3_def [symmetric] split: response.splits)
  qed
qed

text \<open>
  C7, as the claim states it, fails: it says that a successful update is always followed
  by the confirming read. \<open>getDeviceStatus\<close> begins with \<^verbatim>\<open>if (!this.authToken)\<close>, and
  \<^verbatim>\<open>authenticate\<close> stores whatever \<^verbatim>\<open>Account\<close> the cloud returns. With a cloud that
  returns an empty \<^verbatim>\<open>Account\<close> and rejects the credentials from the fifth request on, a
  new client authenticates (twice), fetches the manifest and sends the update, which
  answers 200; \<open>getDeviceStatus\<close> then authenticates again, the answer is 401, and the
  result is \<open>InvalidCredentials\<close>: the last request is that authentication, and no read of
  the state was sent.
\<close>

theorem setDeviceState_blank_token_counterexample:
  "ok 200
   \<and> updateReply cloudBlankToken 3 ''A1B-EU-KDA0001A'' (Some []) [(''oson'', ''ON'')]
       = Response 200 purifierState
   \<and> setDeviceState cloudBlankToken newClient None [(''oson'', ''ON'')] =
       Some (Inl InvalidCredentials,
             newClient\<lparr>authToken := Some [], devices := [toDevice purifier],
                       sent := [PostAuthenticate ''user@example.com'' ''secret'',
                                PostAuthenticate ''user@example.com'' ''secret'',
                                GetManifest (Some []),
                                PatchState ''A1B-EU-KDA0001A'' (Some []) [(''oson'', ''ON'')],
                                PostAuthenticate ''user@example.com'' ''secret'']\<rparr>)"
  by code_simp

text \<open>
  C7, amended. For every partial update \<open>state\<close>: once \<open>setDeviceState\<close> holds a session
  and has resolved the device, it sends the update. If the update answers with a success
  status, \<open>setDeviceState\<close> ensures the session again: a failure of the authentication
  this may need is the result, with no read; otherwise the next request is a read of the
  state of that device, and the result is the status projected from the answer \<open>fresh\<close> to
  that read (or the failure of that read). The body of the answer to the update occurs
  nowhere in the result. While the token the client holds is not empty, no
  authentication is needed: the read follows the update at once. If the update answers
  with another status, the result is \<open>StateUpdateFailed\<close> of that status and the update is
  the last request sent: there is no read.
\<close>

theorem setDeviceState_confirms:
  assumes "ensureToken net c = (Inr (), c1)"
    and "getDevice net c1 deviceId = Some (Inr device, c2)"
    and "updateReply net (length (sent c2)) (DysonDevice.serial device) (authToken c2) state
           = Response status body"
  shows "setDeviceState net c deviceId state =
     (if ok status
      then (case ensureToken net
                   (c2\<lparr>sent := sent c2 @
                         [PatchState (DysonDevice.serial device) (authToken c2) state]\<rparr>) of
              (Inl e, c4) \<Rightarrow> Some (Inl e, c4)
            | (Inr _, c4) \<Rightarrow>
                (case stateReply net (length (sent c4)) (DysonDevice.serial device)
                        (authToken c4) of
                   NetworkError \<Rightarrow>
                     Some (Inl TransportFailure,
                           c4\<lparr>sent := sent c4 @
                                 [GetState (DysonDevice.serial device) (authToken c4)]\<rparr>)
                 | Response status' fresh \<Rightarrow>
                     Some (if ok status' then Inr (toStatus device fresh)
                           else Inl (GetStatusFailed status'),
                           c4\<lparr>sent := sent c4 @
                                 [GetState (DysonDevice.serial device) (authToken c4)]\<rparr>)))
      else Some (Inl (StateUpdateFailed status),
                 c2\<lparr>sent := sent c2 @
                       [PatchState (DysonDevice.serial device) (authToken c2) state]\<rparr>))
   \<and> (truthy (authToken c2) \<longrightarrow>
      setDeviceState net c deviceId state =
       (if ok status
        then (case stateReply net (Suc (length (sent c2))) (DysonDevice.serial device)
                     (authToken c2) of
                NetworkError \<Rightarrow>
                  Some (Inl TransportFailure,
                        c2\<lparr>sent := sent c2 @
                              [PatchState (DysonDevice.serial device) (authToken c2) state,
                               GetState (DysonDevice.serial device) (authToken c2)]\<rparr>)
              | Response status' fresh \<Rightarrow>
                  Some (if ok status' then Inr (toStatus device fresh)
                        else Inl (GetStatusFailed status'),
                        c2\<lparr>sent := sent c2 @
                              [PatchState (DysonDevice.serial device) (authToken c2) state,
                               GetState (DysonDevice.serial device) (authToken c2)]\<rparr>))
        else Some (Inl (StateUpdateFailed status),
                   c2\<lparr>sent := sent c2 @
                         [PatchState (DysonDevice.serial device) (authToken c2) state]\<rparr>)))"
proof (intro conjI impI)
  show a: "setDeviceState net c deviceId state =
     (if ok status
      then (case ensureToken net
                   (c2\<lparr>sent := sent c2 @
                         [PatchState (DysonDevice.serial device) (authToken c2) state]\<rparr>) of
              (Inl e, c4) \<Rightarrow> Some (Inl e, c4)
            | (Inr _, c4) \<Rightarrow>
                (case stateReply net (length (sent c4)) (DysonDevice.serial device)
                        (authToken c4) of
                   NetworkError \<Rightarrow>
                     Some (Inl TransportFailure,
                           c4\<lparr>sent := sent c4 @
                                 [GetState (DysonDevice.serial device) (authToken c4)]\<rparr>)
                 | Response status' fresh \<Rightarrow>
                     Some (if ok status' then Inr (toStatus device fresh)
                           else Inl (GetStatusFailed status'),
                           c4\<lparr>sent := sent c4 @
                                 [GetState (DysonDevice.serial device) (authToken c4)]\<rparr>)))
      else Some (Inl (StateUpdateFailed status),
                 c2\<lparr>sent := sent c2 @
                       [PatchState (DysonDevice.serial device) (authToken c2) state]\<rparr>))"
    by (rule setDeviceState_reread [OF assms])
  assume "truthy (authToken c2)"
  then have "ensureToken net
                   (c2\<lparr>sent := sent c2 @
                         [PatchState (DysonDevice.serial device) (authToken c2) state]\<rparr>)
     = (Inr (), c2\<lparr>sent := sent c2 @
                         [PatchState (DysonDevice.serial device) (authToken c2) state]\<rparr>)"
    by (simp add: ensureToken_def)
  then show "setDeviceState net c deviceId state =
       (if ok status
        then (case stateReply net (Suc (length (sent c2))) (DysonDevice.serial device)
                     (authToken c2) of
                NetworkError \<Rightarrow>
                  Some (Inl TransportFailure,
                        c2\<lparr>sent := sent c2 @
                              [PatchState (DysonDevice.serial device) (authToken c2) state,
                               GetState (DysonDevice.serial device) (authToken c2)]\<rparr>)
              | Response status' fresh \<Rightarrow>
                  Some (if ok status' then Inr (toStatus device fresh)
                        else Inl (GetStatusFailed status'),
                        c2\<lparr>sent := sent c2 @
                              [PatchState (DysonDevice.serial device) (authToken c2) state,
                               GetState (DysonDevice.serial device) (authToken c2)]\<rparr>))
        else Some (Inl (StateUpdateFailed status),
                   c2\<lparr>sent := sent c2 @
                         [PatchState (DysonDevice.serial device) (authToken c2) state]\<rparr>))"
    unfolding a by (simp split: response.splits)
qed

theorem setDeviceState_confirms_witness:
  "setDeviceState cloudAcknowledging connectedClient None [(''oson'', ''ON'')] =
     Some (Inr (toStatus (toDevice purifier) purifierState),
           connectedClient\<lparr>sent := sent connectedClient @
              [PatchState ''A1B-EU-KDA0001A'' (Some ''token'') [(''oson'', ''ON'')],
               GetState ''A1B-EU-KDA0001A'' (Some ''token'')]\<rparr>)
   \<and> updateReply cloudAcknowledging 2 ''A1B-EU-KDA0001A'' (Some ''token'') [(''oson'', ''ON'')]
       = Response 200 emptyReading
   \<and> toStatus (toDevice purifier) emptyReading \<noteq> toStatus (toDevice purifier) purifierState
   \<and> setDeviceState (cloudFailing 500) connectedClient None [(''oson'', ''ON'')] =
     Some (Inl (StateUpdateFailed 500),
           connectedClient\<lparr>sent := sent connectedClient @
              [PatchState ''A1B-EU-KDA0001A'' (Some ''token'') [(''oson'', ''ON'')]]\<rparr>)"
proof -
  have t: "ensureToken cloudAcknowledging connectedClient = (Inr (), connectedClient)"
    "ensureToken (cloudFailing 500) connectedClient = (Inr (), connectedClient)"
    by code_simp+
  have g: "getDevice cloudAcknowledging connectedClient None
       = Some (Inr (toDevice purifier), connectedClient)"
    "getDevice (cloudFailing 500) connectedClient None
       = Some (Inr (toDevice purifier), connectedClient)"
    by code_simp+
  have a: "truthy (authToken connectedClient)"
    by code_simp
  have u: "updateReply cloudAcknowledging (length (sent connectedClient))
             (DysonDevice.serial (toDevice purifier)) (authToken connectedClient)
             [(''oson'', ''ON'')] = Response 200 emptyReading"
    "updateReply (cloudFailing 500) (length (sent connectedClient))
             (DysonDevice.serial (toDevice purifier)) (authToken connectedClient)
             [(''oson'', ''ON'')] = Response 500 purifierState"
    by code_simp+
  have r: "stateReply cloudAcknowledging (Suc (length (sent connectedClient)))
             ''A1B-EU-KDA0001A'' (Some ''token'') = Response 200 purifierState"
    by code_simp
  have v: "DysonDevice.serial (toDevice purifier) = ''A1B-EU-KDA0001A''"
    "authToken connectedClient = Some ''token''" "ok 200" "\<not> ok 500"
    by code_simp+
  have w: "updateReply cloudAcknowledging 2 ''A1B-EU-KDA0001A'' (Some ''token'') [(''oson'', ''ON'')]
       = Response 200 emptyReading"
    "toStatus (toDevice purifier) emptyReading \<noteq> toStatus (toDevice purifier) purifierState"
    by code_simp+
  have 1: "setDeviceState cloudAcknowledging connectedClient None [(''oson'', ''ON'')] =
     Some (Inr (toStatus (toDevice purifier) purifierState),
           connectedClient\<lparr>sent := sent connectedClient @
              [PatchState ''A1B-EU-KDA0001A'' (Some ''token'') [(''oson'', ''ON'')],
               GetState ''A1B-EU-KDA0001A'' (Some ''token'')]\<rparr>)"
    using conjunct2 [OF setDeviceState_confirms [OF t(1) g(1) u(1)]] a
    by (simp add: r v)
  have 2: "setDeviceState (cloudFailing 500) connectedClient None [(''oson'', ''ON'')] =
     Some (Inl (StateUpdateFailed 500),
           connectedClient\<lparr>sent := sent connectedClient @
              [PatchState ''A1B-EU-KDA0001A'' (Some ''token'') [(''oson'', ''ON'')]]\<rparr>)"
    using conjunct2 [OF setDeviceState_confirms [OF t(2) g(2) u(2)]] a
    by (simp add: r v)
  from 1 2 w show ?thesis by blast
qed

section \<open>Decoding the fan speed\<close>

lemma num_neg_NaN: "num_neg x = NaN \<longleftrightarrow> x = NaN"
  by (cases x) simp_all

lemma roundPos_not_NaN: "roundPos a b k \<noteq> NaN"
  by (simp add: roundPos_def Let_def)

lemma num_not_NaN: "num n \<noteq> NaN"
  by (simp add: num_def roundDouble_def roundPos_not_NaN num_neg_NaN)

lemma parseInt_cases: "parseInt s = NaN \<or> (\<exists>n. parseInt s = num n)"
  by (auto simp add: parseInt_def Let_def)

lemma parseFanSpeed_closed:
  "parseFanSpeed ''AUTO'' = ''auto''"
  "parseFanSpeed [] = ''NaN''"
  "parseFanSpeed ''FAST'' = ''NaN''"
  "parseFanSpeed (padStart (toString (num 7)) 4 CHR ''0'') = ''7''"
  by code_simp+

text \<open>
  C10. \<open>parseFanSpeed\<close> returns a string for every input and has no failure: \<^verbatim>\<open>AUTO\<close>
  gives \<^verbatim>\<open>auto\<close>, and any other string the rendering of its integer parse, which is
  \<^verbatim>\<open>NaN\<close> when the parse is NaN, as for the empty string and for \<^verbatim>\<open>FAST\<close>. So
  \<open>getDeviceStatus\<close> does not fail on a malformed \<^verbatim>\<open>fnsp\<close>: once it holds a session and
  has resolved the device, every wire state that comes with a success status gives a
  status, whose fan speed is \<open>parseFanSpeed\<close> of the field.
\<close>

theorem parseFanSpeed_total:
  "parseFanSpeed ''AUTO'' = ''auto''
   \<and> (s \<noteq> ''AUTO'' \<longrightarrow> parseFanSpeed s = toString (parseInt s))
   \<and> (t \<noteq> ''AUTO'' \<and> parseInt t = NaN \<longrightarrow> parseFanSpeed t = ''NaN'')
   \<and> parseFanSpeed [] = ''NaN''
   \<and> parseFanSpeed ''FAST'' = ''NaN''
   \<and> (ensureToken net c = (Inr (), c1)
        \<and> getDevice net c1 deviceId = Some (Inr device, c2)
        \<and> stateReply net (length (sent c2)) (DysonDevice.serial device) (authToken c2)
            = Response status state
        \<and> ok status
       \<longrightarrow> getDeviceStatus net c deviceId =
             Some (Inr (toStatus device state),
                   c2\<lparr>sent := sent c2 @ [GetState (DysonDevice.serial device) (authToken c2)]\<rparr>)
           \<and> fanSpeed (toStatus device state) = parseFanSpeed (fnsp state))"
proof -
  have a: "s \<noteq> ''AUTO'' \<longrightarrow> parseFanSpeed s = toString (parseInt s)"
    by (simp add: parseFanSpeed_def)
  have b: "t \<noteq> ''AUTO'' \<and> parseInt t = NaN \<longrightarrow> parseFanSpeed t = ''NaN''"
    by (simp add: parseFanSpeed_def)
  have c: "ensureToken net c = (Inr (), c1)
        \<and> getDevice net c1 deviceId = Some (Inr device, c2)
        \<and> stateReply net (length (sent c2)) (DysonDevice.serial device) (authToken c2)
            = Response status state
        \<and> ok status
       \<longrightarrow> getDeviceStatus net c deviceId =
             Some (Inr (toStatus device state),
                   c2\<lparr>sent := sent c2 @ [GetState (DysonDevice.serial device) (authToken c2)]\<rparr>)
           \<and> fanSpeed (toStatus device state) = parseFanSpeed (fnsp state)"
    by (auto simp add: getDeviceStatus_read toStatus_def)
  show ?thesis
    using parseFanSpeed_closed(1,2,3) a b c by blast
qed

theorem parseFanSpeed_total_witness:
  "parseFanSpeed ''0007'' = toString (parseInt ''0007'')
   \<and> parseFanSpeed ''FAST'' = ''NaN''
   \<and> getDeviceStatus cloudMalformed connectedClient None =
       Some (Inr (toStatus (toDevice purifier) (purifierState\<lparr>fnsp := ''FAST''\<rparr>)),
             connectedClient\<lparr>sent := sent connectedClient @
                [GetState ''A1B-EU-KDA0001A'' (Some ''token'')]\<rparr>)
   \<and> fanSpeed (toStatus (toDevice purifier) (purifierState\<lparr>fnsp := ''FAST''\<rparr>)) = ''NaN''"
proof -
  have s: "''0007'' \<noteq> ''AUTO''" by simp
  have t: "''FAST'' \<noteq> ''AUTO'' \<and> parseInt ''FAST'' = NaN" by code_simp
  have h: "ensureToken cloudMalformed connectedClient = (Inr (), connectedClient)
        \<and> getDevice cloudMalformed connectedClient None
             = Some (Inr (toDevice purifier), connectedClient)
        \<and> stateReply cloudMalformed (length (sent connectedClient))
             (DysonDevice.serial (toDevice purifier)) (authToken connectedClient)
            = Response 200 (purifierState\<lparr>fnsp := ''FAST''\<rparr>)
        \<and> ok 200"
    by code_simp
  have v: "DysonDevice.serial (toDevice purifier) = ''A1B-EU-KDA0001A''"
    "authToken connectedClient = Some ''token''" "fnsp (purifierState\<lparr>fnsp := ''FAST''\<rparr>) = ''FAST''"
    by code_simp+
  show ?thesis
    using parseFanSpeed_total [of "''0007''" "''FAST''" cloudMalformed connectedClient connectedClient
        None "toDevice purifier" connectedClient 200 "purifierState\<lparr>fnsp := ''FAST''\<rparr>"] s t h
    by (simp add: v)
qed

section \<open>Rendering a temperature\<close>



section \<open>Encoding the fan speed\<close>

text \<open>
  What \<open>fanSpeedUpdate\<close> accepts: \<^verbatim>\<open>auto\<close> in any case, and the strings whose integer
  parse is one of 1 to 10.
\<close>

lemma fanSpeedUpdate_auto:
  "toUpperCase speed = ''AUTO''
   \<Longrightarrow> fanSpeedUpdate speed = Inr [(''fnsp'', ''AUTO''), (''auto'', ''ON''), (''fpwr'', ''ON'')]"
  by (simp add: fanSpeedUpdate_def)

lemma fanSpeedUpdate_numeric:
  assumes "toUpperCase speed \<noteq> ''AUTO''"
  shows "fanSpeedUpdate speed =
     (if \<exists>n. 1 \<le> n \<and> n \<le> 10 \<and> parseInt speed = num n
      then Inr [(''fnsp'', padStart (toString (parseInt speed)) 4 CHR ''0''),
                (''auto'', ''OFF''), (''fpwr'', ''ON'')]
      else Inl InvalidFanSpeed)"
proof (cases "\<exists>n. 1 \<le> n \<and> n \<le> 10 \<and> parseInt speed = num n")
  case True
  then obtain n where n: "1 \<le> n" "n \<le> 10" "parseInt speed = num n" by blast
  have "\<not> isNaN (num n)" using num_not_NaN [of n] by (cases "num n") simp_all
  then show ?thesis
    using True assms n speed_codes(5,6) [OF n(1,2)] by (simp add: fanSpeedUpdate_def)
next
  case False
  have "isNaN (parseInt speed) \<or> num_lt (parseInt speed) (num 1)
          \<or> num_lt (num 10) (parseInt speed)"
  proof (rule ccontr)
    assume a: "\<not> ?thesis"
    then have "parseInt speed \<noteq> NaN" by auto
    then obtain n where n: "parseInt speed = num n" using parseInt_cases [of speed] by blast
    then have "1 \<le> n \<and> n \<le> 10" using a num_range [of n] by simp
    then show False using False n by blast
  qed
  then show ?thesis
    using False assms by (simp add: fanSpeedUpdate_def)
qed

text \<open>The fields written for the integer strings 1 to 10, and the codes one by one.\<close>

lemma fanSpeedUpdate_digits:
  assumes "1 \<le> k" "k \<le> 10"
  shows "fanSpeedUpdate (dec (nat k)) =
           Inr [(''fnsp'', padStart (dec (nat k)) 4 CHR ''0''), (''auto'', ''OFF''), (''fpwr'', ''ON'')]"
    and "length (padStart (dec (nat k)) 4 CHR ''0'') = 4"
  using speed_cases [OF assms]
  by (elim disjE; hypsubst; code_simp)+

lemma fanSpeedUpdate_wire:
  "map fanSpeedUpdate [''10'', ''9'', ''8'', ''7'', ''6'', ''5'', ''4'', ''3'', ''2'', ''1'']
     = map (\<lambda>w. Inr [(''fnsp'', w), (''auto'', ''OFF''), (''fpwr'', ''ON'')])
         [''0010'', ''0009'', ''0008'', ''0007'', ''0006'', ''0005'', ''0004'', ''0003'',
          ''0002'', ''0001'']"
  "map parseFanSpeed
         [''0010'', ''0009'', ''0008'', ''0007'', ''0006'', ''0005'', ''0004'', ''0003'',
          ''0002'', ''0001'']
     = [''10'', ''9'', ''8'', ''7'', ''6'', ''5'', ''4'', ''3'', ''2'', ''1'']"
  "fanSpeedUpdate ''auto'' = Inr [(''fnsp'', ''AUTO''), (''auto'', ''ON''), (''fpwr'', ''ON'')]"
  "parseFanSpeed ''AUTO'' = ''auto''"
  "fanSpeedUpdate ''7'' = Inr [(''fnsp'', ''0007''), (''auto'', ''OFF''), (''fpwr'', ''ON'')]"
  "parseFanSpeed ''0007'' = ''7''"
  by code_simp+

text \<open>
  C5. Encoding a speed and decoding it again gives the speed back. For every integer
  \<open>n\<close> from 1 to 10, \<open>fanSpeedUpdate\<close> given the decimal string of \<open>n\<close> writes as \<^verbatim>\<open>fnsp\<close>
  the four-character code that is this string padded with zeros, and \<open>parseFanSpeed\<close>
  decodes that code to the decimal string of \<open>n\<close>, without leading zeros: \<^verbatim>\<open>7\<close> is
  written as \<^verbatim>\<open>0007\<close>, which decodes to \<^verbatim>\<open>7\<close>, and so for each of the ten speeds.
  \<^verbatim>\<open>auto\<close> is written as \<^verbatim>\<open>AUTO\<close>, which decodes to \<^verbatim>\<open>auto\<close>. More generally, for
  every input that \<open>setFanSpeed\<close> accepts, the \<^verbatim>\<open>fnsp\<close> it writes decodes to \<^verbatim>\<open>auto\<close>
  for \<^verbatim>\<open>auto\<close> and to the rendering of the parsed speed otherwise.
\<close>

theorem fanSpeed_roundtrip:
  "(1 \<le> n \<and> n \<le> 10
      \<longrightarrow> (\<exists>w. fanSpeedUpdate (dec (nat n))
                  = Inr [(''fnsp'', w), (''auto'', ''OFF''), (''fpwr'', ''ON'')]
               \<and> w = padStart (dec (nat n)) 4 CHR ''0''
               \<and> length w = 4
               \<and> parseFanSpeed w = dec (nat n))
          \<and> toString (num n) = dec (nat n))
   \<and> fanSpeedUpdate ''7'' = Inr [(''fnsp'', ''0007''), (''auto'', ''OFF''), (''fpwr'', ''ON'')]
   \<and> parseFanSpeed ''0007'' = ''7''
   \<and> map fanSpeedUpdate [''10'', ''9'', ''8'', ''7'', ''6'', ''5'', ''4'', ''3'', ''2'', ''1'']
       = map (\<lambda>w. Inr [(''fnsp'', w), (''auto'', ''OFF''), (''fpwr'', ''ON'')])
           [''0010'', ''0009'', ''0008'', ''0007'', ''0006'', ''0005'', ''0004'', ''0003'',
            ''0002'', ''0001'']
   \<and> map parseFanSpeed
           [''0010'', ''0009'', ''0008'', ''0007'', ''0006'', ''0005'', ''0004'', ''0003'',
            ''0002'', ''0001'']
       = [''10'', ''9'', ''8'', ''7'', ''6'', ''5'', ''4'', ''3'', ''2'', ''1'']
   \<and> fanSpeedUpdate ''auto'' = Inr [(''fnsp'', ''AUTO''), (''auto'', ''ON''), (''fpwr'', ''ON'')]
   \<and> parseFanSpeed ''AUTO'' = ''auto''
   \<and> (fanSpeedUpdate speed = Inr u
      \<longrightarrow> (\<exists>w. map_of u ''fnsp'' = Some w
               \<and> parseFanSpeed w = (if toUpperCase speed = ''AUTO'' then ''auto''
                                     else toString (parseInt speed))))"
proof -
  have a: "1 \<le> n \<and> n \<le> 10
      \<longrightarrow> (\<exists>w. fanSpeedUpdate (dec (nat n))
                  = Inr [(''fnsp'', w), (''auto'', ''OFF''), (''fpwr'', ''ON'')]
               \<and> w = padStart (dec (nat n)) 4 CHR ''0''
               \<and> length w = 4
               \<and> parseFanSpeed w = dec (nat n))
          \<and> toString (num n) = dec (nat n)"
    using fanSpeedUpdate_digits [of n] speed_codes(1,4) [of n] by simp
  have b: "fanSpeedUpdate speed = Inr u
      \<longrightarrow> (\<exists>w. map_of u ''fnsp'' = Some w
               \<and> parseFanSpeed w = (if toUpperCase speed = ''AUTO'' then ''auto''
                                     else toString (parseInt speed)))"
  proof (cases "toUpperCase speed = ''AUTO''")
    case True
    then show ?thesis
      using fanSpeedUpdate_auto [OF True] parseFanSpeed_closed(1) by auto
  next
    case False
    show ?thesis
    proof
      assume acc: "fanSpeedUpdate speed = Inr u"
      then obtain n where n: "1 \<le> n" "n \<le> 10" "parseInt speed = num n"
        using fanSpeedUpdate_numeric [OF False] by (auto split: if_splits)
      then have "u = [(''fnsp'', padStart (toString (num n)) 4 CHR ''0''),
                (''auto'', ''OFF''), (''fpwr'', ''ON'')]"
        using acc fanSpeedUpdate_numeric [OF False] by (auto split: if_splits)
      then show "\<exists>w. map_of u ''fnsp'' = Some w
               \<and> parseFanSpeed w = (if toUpperCase speed = ''AUTO'' then ''auto''
                                     else toString (parseInt speed))"
        using False n speed_codes(1,4) [OF n(1,2)] by simp
    qed
  qed
  show ?thesis
    using a b fanSpeedUpdate_wire by blast
qed

theorem fanSpeed_roundtrip_witness:
  "dec (nat 7) = ''7''
   \<and> (\<exists>w. fanSpeedUpdate ''7'' = Inr [(''fnsp'', w), (''auto'', ''OFF''), (''fpwr'', ''ON'')]
          \<and> w = ''0007'' \<and> length w = 4 \<and> parseFanSpeed w = ''7'')
   \<and> toString (num 7) = ''7''
   \<and> (\<exists>w. map_of [(''fnsp'', ''AUTO''), (''auto'', ''ON''), (''fpwr'', ''ON'')] ''fnsp'' = Some w
          \<and> parseFanSpeed w = ''auto'')"
proof -
  have r: "(1::int) \<le> 7 \<and> (7::int) \<le> 10" by simp
  have d: "dec (nat 7) = ''7''" "padStart ''7'' 4 CHR ''0'' = ''0007''" by code_simp+
  have h: "fanSpeedUpdate ''auto'' = Inr [(''fnsp'', ''AUTO''), (''auto'', ''ON''), (''fpwr'', ''ON'')]"
    "toUpperCase ''auto'' = ''AUTO''"
    by code_simp+
  note t = fanSpeed_roundtrip
    [of 7 "''auto''" "[(''fnsp'', ''AUTO''), (''auto'', ''ON''), (''fpwr'', ''ON'')]"]
  from t r have "(\<exists>w. fanSpeedUpdate (dec (nat 7))
                  = Inr [(''fnsp'', w), (''auto'', ''OFF''), (''fpwr'', ''ON'')]
               \<and> w = padStart (dec (nat 7)) 4 CHR ''0''
               \<and> length w = 4
               \<and> parseFanSpeed w = dec (nat 7))
          \<and> toString (num 7) = dec (nat 7)"
    by blast
  then have 1: "(\<exists>w. fanSpeedUpdate ''7'' = Inr [(''fnsp'', w), (''auto'', ''OFF''), (''fpwr'', ''ON'')]
          \<and> w = ''0007'' \<and> length w = 4 \<and> parseFanSpeed w = ''7'')
      \<and> toString (num 7) = ''7''"
    by (simp only: d)
  from t h(1) have "\<exists>w. map_of [(''fnsp'', ''AUTO''), (''auto'', ''ON''), (''fpwr'', ''ON'')] ''fnsp''
        = Some w
      \<and> parseFanSpeed w = (if toUpperCase ''auto'' = ''AUTO'' then ''auto''
                            else toString (parseInt ''auto''))"
    by blast
  then have 2: "\<exists>w. map_of [(''fnsp'', ''AUTO''), (''auto'', ''ON''), (''fpwr'', ''ON'')] ''fnsp''
        = Some w \<and> parseFanSpeed w = ''auto''"
    by (simp only: h(2) simp_thms if_True)
  from 1 2 d(1) show ?thesis by blast
qed

section \<open>Projecting the air quality\<close>





section \<open>Unauthorized answers\<close>

text \<open>
  C1 says that a 401 on any authenticated call (the manifest, a read of the state, an
  update) leads to exactly one new authentication and one retry, and that a second 401
  in a row is an error. The code breaks this in two ways. A read of the state and an
  update that are answered with a 401 fail at once, with no authentication and no retry,
  although \<^verbatim>\<open>getDevices\<close> handles the same answer. And \<^verbatim>\<open>getDevices\<close>, which does
  authenticate and retry after a 401 (after one 401 the second fetch succeeds), does so
  with no bound: after two 401 in a row it authenticates and fetches a third time, and
  under a cloud that accepts the credentials and always rejects the manifest it never
  returns.
\<close>

theorem unauthorized_answers:
  "getDeviceStatus cloudExpired connectedClient None =
     Some (Inl (GetStatusFailed 401),
           connectedClient\<lparr>sent := sent connectedClient @
             [GetState ''A1B-EU-KDA0001A'' (Some ''token'')]\<rparr>)
   \<and> setDeviceState (cloudFailing 401) connectedClient None [(''oson'', ''ON'')] =
     Some (Inl (StateUpdateFailed 401),
           connectedClient\<lparr>sent := sent connectedClient @
             [PatchState ''A1B-EU-KDA0001A'' (Some ''token'') [(''oson'', ''ON'')]]\<rparr>)
   \<and> map_option (\<lambda>y. (fst y, sent (snd y))) (getDevices (cloudRejecting 2) newClient) =
     Some (Inr [toDevice purifier],
           [PostAuthenticate ''user@example.com'' ''secret'', GetManifest (Some ''token''),
            PostAuthenticate ''user@example.com'' ''secret'', GetManifest (Some ''token'')])
   \<and> map_option (\<lambda>y. (fst y, sent (snd y))) (getDevices (cloudRejecting 4) newClient) =
     Some (Inr [toDevice purifier],
           [PostAuthenticate ''user@example.com'' ''secret'', GetManifest (Some ''token''),
            PostAuthenticate ''user@example.com'' ''secret'', GetManifest (Some ''token''),
            PostAuthenticate ''user@example.com'' ''secret'', GetManifest (Some ''token'')])
   \<and> getDevices cloudUnauthorized newClient = None"
proof -
  have a: "getDeviceStatus cloudExpired connectedClient None =
     Some (Inl (GetStatusFailed 401),
           connectedClient\<lparr>sent := sent connectedClient @
             [GetState ''A1B-EU-KDA0001A'' (Some ''token'')]\<rparr>)"
    by code_simp
  have b: "setDeviceState (cloudFailing 401) connectedClient None [(''oson'', ''ON'')] =
     Some (Inl (StateUpdateFailed 401),
           connectedClient\<lparr>sent := sent connectedClient @
             [PatchState ''A1B-EU-KDA0001A'' (Some ''token'') [(''oson'', ''ON'')]]\<rparr>)"
    by code_simp
  have c: "map_option (\<lambda>y. (fst y, sent (snd y))) (getDevices (cloudRejecting 2) newClient) =
     Some (Inr [toDevice purifier],
           [PostAuthenticate ''user@example.com'' ''secret'', GetManifest (Some ''token''),
            PostAuthenticate ''user@example.com'' ''secret'', GetManifest (Some ''token'')])"
    by code_simp
  have d: "map_option (\<lambda>y. (fst y, sent (snd y))) (getDevices (cloudRejecting 4) newClient) =
     Some (Inr [toDevice purifier],
           [PostAuthenticate ''user@example.com'' ''secret'', GetManifest (Some ''token''),
            PostAuthenticate ''user@example.com'' ''secret'', GetManifest (Some ''token''),
            PostAuthenticate ''user@example.com'' ''secret'', GetManifest (Some ''token'')])"
    by code_simp
  have e: "getDevices cloudUnauthorized newClient = None"
    by (rule getDevices_diverges) (simp_all add: cloudUnauthorized_def cloud_def)
  from a b c d e show ?thesis by blast
qed

section \<open>The updates a call sends\<close>

text \<open>
  Resolving a device and reading the state send no update, and no call below
  \<open>setFanSpeed\<close> throws the error of the speed validation.
\<close>

lemma fetchError_valid: "fetchError e \<Longrightarrow> e \<noteq> InvalidFanSpeed"
  by (cases e) simp_all

lemma getDevice_quiet:
  assumes g: "getDevice net c deviceId = Some (r, c')"
  shows "\<exists>rs. sent c' = sent c @ rs \<and> patchBodies rs = []" and "r \<noteq> Inl InvalidFanSpeed"
proof -
  from getDevice_Some [OF g] obtain ds where
    d: "ensureDevices net c = Some (Inr ds, c')
        \<or> (\<exists>e. ensureDevices net c = Some (Inl e, c') \<and> r = Inl e)"
    by blast
  then show "\<exists>rs. sent c' = sent c @ rs \<and> patchBodies rs = []"
    using ensureDevices_fetched [of net c] by (auto simp add: fetched_def)
  from d show "r \<noteq> Inl InvalidFanSpeed"
  proof
    assume e: "ensureDevices net c = Some (Inr ds, c')"
    show ?thesis
    proof (cases "truthy deviceId")
      case True
      then obtain i where i: "deviceId = Some i" "i \<noteq> []"
        by (cases deviceId) auto
      show ?thesis
        using g getDevice_cases(4) [OF e i(2)] i(1) by (auto split: option.splits)
    next
      case False
      then have "deviceId = None \<or> deviceId = Some []"
        by (cases deviceId) auto
      then show ?thesis
        using g getDevice_cases(2,3) [OF e] by (auto split: if_splits)
    qed
  next
    assume "\<exists>e. ensureDevices net c = Some (Inl e, c') \<and> r = Inl e"
    then obtain e where e: "ensureDevices net c = Some (Inl e, c')" "r = Inl e" by blast
    then have "fetchError e"
      using ensureDevices_fetched [OF e(1)] by (simp add: fetched_def)
    then show ?thesis using e(2) fetchError_valid by auto
  qed
qed

lemma ensureToken_quiet:
  assumes "ensureToken net c = (r, c')"
  shows "\<exists>rs. sent c' = sent c @ rs \<and> patchBodies rs = []" and "r \<noteq> Inl InvalidFanSpeed"
proof -
  show "\<exists>rs. sent c' = sent c @ rs \<and> patchBodies rs = []"
    using ensureToken_facts(1) [OF assms] by auto
  show "r \<noteq> Inl InvalidFanSpeed"
    using ensureToken_facts(5) [OF assms, of InvalidFanSpeed] by auto
qed

lemma quiet_trans:
  assumes "\<exists>rs. sent c1 = sent c @ rs \<and> patchBodies rs = []"
    and "\<exists>rs. sent c2 = sent c1 @ rs \<and> patchBodies rs = []"
  shows "\<exists>rs. sent c2 = sent c @ rs \<and> patchBodies rs = []"
  using assms by (auto simp add: patchBodies_append)

lemma quiet_bodies:
  "\<exists>rs. sent c1 = sent c @ rs \<and> patchBodies rs = []
   \<Longrightarrow> patchBodies (sent c1) = patchBodies (sent c)"
  by (auto simp add: patchBodies_append)

lemma getDeviceStatus_quiet:
  assumes g: "getDeviceStatus net c deviceId = Some (r, c')"
  shows "patchBodies (sent c') = patchBodies (sent c)" and "r \<noteq> Inl InvalidFanSpeed"
proof -
  obtain r1 c1 where t: "ensureToken net c = (r1, c1)" by (cases "ensureToken net c")
  note q1 = ensureToken_quiet [OF t]
  have "patchBodies (sent c') = patchBodies (sent c) \<and> r \<noteq> Inl InvalidFanSpeed"
  proof (cases r1)
    case (Inl e)
    then show ?thesis
      using g t q1 quiet_bodies [OF q1(1)] by (auto simp add: getDeviceStatus_def)
  next
    case (Inr u)
    then obtain r2 c2 where d: "getDevice net c1 deviceId = Some (r2, c2)"
      using g t by (cases "getDevice net c1 deviceId") (auto simp add: getDeviceStatus_def)
    note q2 = getDevice_quiet [OF d]
    have b: "patchBodies (sent c2) = patchBodies (sent c)"
      using quiet_bodies [OF quiet_trans [OF q1(1) q2(1)]] .
    show ?thesis
    proof (cases r2)
      case (Inl e)
      then show ?thesis
        using g t d Inr q2(2) b by (auto simp add: getDeviceStatus_def)
    next
      case (Inr device)
      then show ?thesis
        using g t d \<open>r1 = Inr u\<close> b
        by (auto simp add: getDeviceStatus_def patchBodies_append split: response.splits if_splits)
    qed
  qed
  then show "patchBodies (sent c') = patchBodies (sent c)" and "r \<noteq> Inl InvalidFanSpeed"
    by simp_all
qed

lemma setDeviceState_quiet:
  assumes g: "setDeviceState net c deviceId state = Some (r, c')"
  shows "patchBodies (sent c') = patchBodies (sent c) @ [state]
         \<or> patchBodies (sent c') = patchBodies (sent c)"
    and "r \<noteq> Inl InvalidFanSpeed"
proof -
  obtain r1 c1 where t: "ensureToken net c = (r1, c1)" by (cases "ensureToken net c")
  note q1 = ensureToken_quiet [OF t]
  have "(patchBodies (sent c') = patchBodies (sent c) @ [state]
         \<or> patchBodies (sent c') = patchBodies (sent c)) \<and> r \<noteq> Inl InvalidFanSpeed"
  proof (cases r1)
    case (Inl e)
    then show ?thesis
      using g t q1 quiet_bodies [OF q1(1)] by (auto simp add: setDeviceState_def)
  next
    case (Inr u)
    then obtain r2 c2 where d: "getDevice net c1 deviceId = Some (r2, c2)"
      using g t by (cases "getDevice net c1 deviceId") (auto simp add: setDeviceState_def)
    note q2 = getDevice_quiet [OF d]
    have b: "patchBodies (sent c2) = patchBodies (sent c)"
      using quiet_bodies [OF quiet_trans [OF q1(1) q2(1)]] .
    show ?thesis
    proof (cases r2)
      case (Inl e)
      then show ?thesis
        using g t d Inr q2(2) b by (auto simp add: setDeviceState_def)
    next
      case (Inr device)
      define c3 where "c3 = c2\<lparr>sent := sent c2 @
          [PatchState (DysonDevice.serial device) (authToken c2) state]\<rparr>"
      have b3: "patchBodies (sent c3) = patchBodies (sent c) @ [state]"
        using b by (simp add: c3_def patchBodies_append)
      show ?thesis
      proof (cases "updateReply net (length (sent c2)) (DysonDevice.serial device) (authToken c2) state")
        case NetworkError
        then show ?thesis
          using g t d \<open>r1 = Inr u\<close> Inr b3
          by (auto simp add: setDeviceState_def c3_def [symmetric])
      next
        case (Response status body)
        show ?thesis
        proof (cases "ok status")
          case False
          then show ?thesis
            using g t d \<open>r1 = Inr u\<close> Inr b3 Response
            by (auto simp add: setDeviceState_def c3_def [symmetric])
        next
          case True
          then have "getDeviceStatus net c3 (Some (DysonDevice.serial device)) = Some (r, c')"
            using g t d \<open>r1 = Inr u\<close> Inr Response
            by (simp add: setDeviceState_def c3_def [symmetric])
          from getDeviceStatus_quiet [OF this] show ?thesis
            using b3 by simp
        qed
      qed
    qed
  qed
  then show "patchBodies (sent c') = patchBodies (sent c) @ [state]
         \<or> patchBodies (sent c') = patchBodies (sent c)"
    and "r \<noteq> Inl InvalidFanSpeed"
    by simp_all
qed

section \<open>Setting the fan speed\<close>

lemma fanSpeedUpdate_closed:
  "fanSpeedUpdate ''0'' = Inl InvalidFanSpeed"
  "fanSpeedUpdate ''11'' = Inl InvalidFanSpeed"
  by code_simp+

text \<open>
  C2. The claim says that \<open>setFanSpeed\<close> accepts exactly \<^verbatim>\<open>auto\<close>, in any case, and the
  integer strings 1 to 10, and signals \<open>InvalidFanSpeed\<close> for every other string. So do
  the message of the error, \<^verbatim>\<open>Fan speed must be 1-10 or "auto"\<close>, and the descriptions
  of the tools, \<^verbatim>\<open>Fan speed: 1-10 or "auto"\<close>; and the \<^verbatim>\<open>auto\<close> branch compares the whole
  string, so that \<^verbatim>\<open>auto\<close> after a space is rejected. The numeric branch does not: it
  tests the number \<^verbatim>\<open>parseInt\<close> returns, and \<^verbatim>\<open>parseInt\<close> reads the leading digits
  and ignores the rest. \<^verbatim>\<open>7abc\<close> is neither \<^verbatim>\<open>auto\<close> nor one of the ten strings, yet
  \<open>setFanSpeed\<close> signals no error: it takes the string for 7, sends the update with
  \<^verbatim>\<open>fnsp\<close> = \<^verbatim>\<open>0007\<close> and returns the status. \<^verbatim>\<open>7.9\<close> is written as \<^verbatim>\<open>0007\<close> too, and
  \<^verbatim>\<open>1e1\<close> as \<^verbatim>\<open>0001\<close>.
\<close>

theorem setFanSpeed_lenient:
  "toUpperCase ''7abc'' \<noteq> ''AUTO''
   \<and> ''7abc'' \<notin> set (map dec [1..<11])
   \<and> fanSpeedUpdate ''7abc'' = Inr [(''fnsp'', ''0007''), (''auto'', ''OFF''), (''fpwr'', ''ON'')]
   \<and> setFanSpeed cloud connectedClient None ''7abc'' =
       Some (Inr (toStatus (toDevice purifier) purifierState),
             connectedClient\<lparr>sent := sent connectedClient @
               [PatchState ''A1B-EU-KDA0001A'' (Some ''token'')
                  [(''fnsp'', ''0007''), (''auto'', ''OFF''), (''fpwr'', ''ON'')],
                GetState ''A1B-EU-KDA0001A'' (Some ''token'')]\<rparr>)
   \<and> fanSpeedUpdate ''7.9'' = Inr [(''fnsp'', ''0007''), (''auto'', ''OFF''), (''fpwr'', ''ON'')]
   \<and> fanSpeedUpdate ''1e1'' = Inr [(''fnsp'', ''0001''), (''auto'', ''OFF''), (''fpwr'', ''ON'')]
   \<and> fanSpeedUpdate '' auto'' = Inl InvalidFanSpeed"
  by code_simp

text \<open>
  What the validation decides on every input. \<open>setFanSpeed\<close> accepts \<^verbatim>\<open>auto\<close> in any
  case and every string whose \<^verbatim>\<open>parseInt\<close> is an integer from 1 to 10, among them the
  integer strings 1 to 10, and signals \<open>InvalidFanSpeed\<close> for every other string. For
  every string that is not \<^verbatim>\<open>auto\<close> and has no integer parse, and for the speeds 0 and
  11, it signals \<open>InvalidFanSpeed\<close> and sends nothing: the client is as before. For every
  accepted input it does not signal \<open>InvalidFanSpeed\<close>.
\<close>

lemma setFanSpeed_validation:
  "fanSpeedUpdate speed =
     (if toUpperCase speed = ''AUTO''
      then Inr [(''fnsp'', ''AUTO''), (''auto'', ''ON''), (''fpwr'', ''ON'')]
      else if \<exists>n. 1 \<le> n \<and> n \<le> 10 \<and> parseInt speed = num n
      then Inr [(''fnsp'', padStart (toString (parseInt speed)) 4 CHR ''0''),
                (''auto'', ''OFF''), (''fpwr'', ''ON'')]
      else Inl InvalidFanSpeed)
   \<and> (toUpperCase s \<noteq> ''AUTO'' \<and> parseInt s = NaN
        \<longrightarrow> setFanSpeed net c deviceId s = Some (Inl InvalidFanSpeed, c))
   \<and> (fanSpeedUpdate t = Inl InvalidFanSpeed
        \<longrightarrow> setFanSpeed net c deviceId t = Some (Inl InvalidFanSpeed, c))
   \<and> setFanSpeed net c deviceId ''0'' = Some (Inl InvalidFanSpeed, c)
   \<and> setFanSpeed net c deviceId ''11'' = Some (Inl InvalidFanSpeed, c)
   \<and> (1 \<le> k \<and> k \<le> 10
        \<longrightarrow> fanSpeedUpdate (dec (nat k)) =
              Inr [(''fnsp'', padStart (dec (nat k)) 4 CHR ''0''), (''auto'', ''OFF''),
                   (''fpwr'', ''ON'')])
   \<and> (fanSpeedUpdate a = Inr u
        \<longrightarrow> setFanSpeed net c deviceId a \<noteq> Some (Inl InvalidFanSpeed, c'))"
proof -
  have 1: "fanSpeedUpdate speed =
     (if toUpperCase speed = ''AUTO''
      then Inr [(''fnsp'', ''AUTO''), (''auto'', ''ON''), (''fpwr'', ''ON'')]
      else if \<exists>n. 1 \<le> n \<and> n \<le> 10 \<and> parseInt speed = num n
      then Inr [(''fnsp'', padStart (toString (parseInt speed)) 4 CHR ''0''),
                (''auto'', ''OFF''), (''fpwr'', ''ON'')]
      else Inl InvalidFanSpeed)"
    using fanSpeedUpdate_auto [of speed] fanSpeedUpdate_numeric [of speed]
    by (cases "toUpperCase speed = ''AUTO''") simp_all
  have 2: "toUpperCase s \<noteq> ''AUTO'' \<and> parseInt s = NaN
        \<longrightarrow> setFanSpeed net c deviceId s = Some (Inl InvalidFanSpeed, c)"
    by (simp add: setFanSpeed_def fanSpeedUpdate_def)
  have 3: "fanSpeedUpdate t = Inl InvalidFanSpeed
        \<longrightarrow> setFanSpeed net c deviceId t = Some (Inl InvalidFanSpeed, c)"
    by (simp add: setFanSpeed_def)
  have 4: "setFanSpeed net c deviceId ''0'' = Some (Inl InvalidFanSpeed, c)"
    "setFanSpeed net c deviceId ''11'' = Some (Inl InvalidFanSpeed, c)"
    by (simp_all add: setFanSpeed_def fanSpeedUpdate_closed)
  have 5: "1 \<le> k \<and> k \<le> 10
        \<longrightarrow> fanSpeedUpdate (dec (nat k)) =
              Inr [(''fnsp'', padStart (dec (nat k)) 4 CHR ''0''), (''auto'', ''OFF''),
                   (''fpwr'', ''ON'')]"
    using fanSpeedUpdate_digits(1) [of k] by blast
  have 6: "fanSpeedUpdate a = Inr u
        \<longrightarrow> setFanSpeed net c deviceId a \<noteq> Some (Inl InvalidFanSpeed, c')"
    using setDeviceState_quiet(2) [of net c deviceId u "Inl InvalidFanSpeed" c']
    by (auto simp add: setFanSpeed_def)
  from 1 2 3 4 5 6 show ?thesis by blast
qed

text \<open>Once the session is there and the device resolved, the update is sent.\<close>

lemma setDeviceState_sends:
  assumes t: "ensureToken net c = (Inr (), c1)"
    and d: "getDevice net c1 deviceId = Some (Inr device, c2)"
    and g: "setDeviceState net c deviceId state = Some (r, c')"
  shows "patchBodies (sent c') = patchBodies (sent c) @ [state]"
proof -
  define c3 where "c3 = c2\<lparr>sent := sent c2 @
      [PatchState (DysonDevice.serial device) (authToken c2) state]\<rparr>"
  have "patchBodies (sent c2) = patchBodies (sent c)"
    using quiet_bodies [OF quiet_trans [OF ensureToken_quiet(1) [OF t] getDevice_quiet(1) [OF d]]] .
  then have b3: "patchBodies (sent c3) = patchBodies (sent c) @ [state]"
    by (simp add: c3_def patchBodies_append)
  show ?thesis
  proof (cases "updateReply net (length (sent c2)) (DysonDevice.serial device) (authToken c2) state")
    case NetworkError
    then show ?thesis
      using g t d b3 by (auto simp add: setDeviceState_def c3_def [symmetric])
  next
    case (Response status body)
    show ?thesis
    proof (cases "ok status")
      case False
      then show ?thesis
        using g t d b3 Response by (auto simp add: setDeviceState_def c3_def [symmetric])
    next
      case True
      then have "getDeviceStatus net c3 (Some (DysonDevice.serial device)) = Some (r, c')"
        using g t d Response by (simp add: setDeviceState_def c3_def [symmetric])
      from getDeviceStatus_quiet(1) [OF this] show ?thesis
        using b3 by simp
    qed
  qed
qed

text \<open>
  Once the session is there and the device resolved, \<open>setDeviceState\<close> returns, and the
  update, addressed to that device, is the one update among the requests it has sent.
\<close>

lemma setDeviceState_patches:
  assumes t: "ensureToken net c = (Inr (), c1)"
    and g: "getDevice net c1 deviceId = Some (Inr device, c2)"
  shows "\<exists>r c' rs. setDeviceState net c deviceId state = Some (r, c')
           \<and> sent c' = sent c2 @ PatchState (DysonDevice.serial device) (authToken c2) state # rs
           \<and> patchBodies rs = []"
proof (cases "updateReply net (length (sent c2)) (DysonDevice.serial device) (authToken c2) state")
  case NetworkError
  then show ?thesis using t g by (simp add: setDeviceState_def)
next
  case (Response status body)
  define c3 where
    "c3 = c2\<lparr>sent := sent c2 @ [PatchState (DysonDevice.serial device) (authToken c2) state]\<rparr>"
  note eq = setDeviceState_reread [OF t g Response, folded c3_def]
  show ?thesis
  proof (cases "ok status")
    case False
    then show ?thesis unfolding eq by (simp add: c3_def)
  next
    case True
    obtain r4 c4 where e4: "ensureToken net c3 = (r4, c4)" by (cases "ensureToken net c3")
    have s4: "sent c4 = sent c2 @ [PatchState (DysonDevice.serial device) (authToken c2) state]
              \<or> sent c4 = sent c2 @ [PatchState (DysonDevice.serial device) (authToken c2) state,
                                      PostAuthenticate (email c3) (password c3)]"
      using ensureToken_facts(1) [OF e4] by (auto simp add: c3_def)
    show ?thesis
    proof (cases r4)
      case (Inl e)
      then show ?thesis unfolding eq using True e4 s4 by auto
    next
      case (Inr x)
      then show ?thesis unfolding eq using True e4 s4
        by (auto split: response.splits)
    qed
  qed
qed

text \<open>
  C4. For every accepted input, the fields \<open>setFanSpeed\<close> writes are exactly
  \<^verbatim>\<open>fnsp\<close> = AUTO, \<^verbatim>\<open>auto\<close> = ON, \<^verbatim>\<open>fpwr\<close> = ON when the input is \<^verbatim>\<open>auto\<close> in any case, and
  \<^verbatim>\<open>fnsp\<close> = the speed padded with zeros to four characters, \<^verbatim>\<open>auto\<close> = OFF, \<^verbatim>\<open>fpwr\<close> = ON
  when the input is a speed from 1 to 10. So \<^verbatim>\<open>fpwr\<close> is ON in every case. The call is
  \<open>setDeviceState\<close> with these fields. Once it holds a session and has resolved the
  device, the call returns, and it has sent the update with these fields as body to
  that device: the requests after it hold no update, and this is the one update the call
  has added. In no case does a call that returns add another update.
\<close>

theorem setFanSpeed_writes:
  assumes "fanSpeedUpdate speed = Inr u"
  shows "(if toUpperCase speed = ''AUTO''
          then u = [(''fnsp'', ''AUTO''), (''auto'', ''ON''), (''fpwr'', ''ON'')]
          else \<exists>n. 1 \<le> n \<and> n \<le> 10 \<and> parseInt speed = num n
                 \<and> u = [(''fnsp'', padStart (dec (nat n)) 4 CHR ''0''), (''auto'', ''OFF''),
                        (''fpwr'', ''ON'')]
                 \<and> length (padStart (dec (nat n)) 4 CHR ''0'') = 4)
    \<and> map_of u ''fpwr'' = Some ''ON''
    \<and> setFanSpeed net c deviceId speed = setDeviceState net c deviceId u
    \<and> (ensureToken net c = (Inr (), c1) \<and> getDevice net c1 deviceId = Some (Inr device, c2)
         \<longrightarrow> (\<exists>r c' rs. setFanSpeed net c deviceId speed = Some (r, c')
                 \<and> sent c' = sent c2 @ PatchState (DysonDevice.serial device) (authToken c2) u # rs
                 \<and> patchBodies rs = []
                 \<and> patchBodies (sent c') = patchBodies (sent c) @ [u]))
    \<and> (setFanSpeed net c deviceId speed = Some (y, d)
         \<longrightarrow> patchBodies (sent d) = patchBodies (sent c) @ [u]
             \<or> patchBodies (sent d) = patchBodies (sent c))"
proof -
  have 1: "if toUpperCase speed = ''AUTO''
          then u = [(''fnsp'', ''AUTO''), (''auto'', ''ON''), (''fpwr'', ''ON'')]
          else \<exists>n. 1 \<le> n \<and> n \<le> 10 \<and> parseInt speed = num n
                 \<and> u = [(''fnsp'', padStart (dec (nat n)) 4 CHR ''0''), (''auto'', ''OFF''),
                        (''fpwr'', ''ON'')]
                 \<and> length (padStart (dec (nat n)) 4 CHR ''0'') = 4"
  proof (cases "toUpperCase speed = ''AUTO''")
    case True
    then show ?thesis using assms fanSpeedUpdate_auto [OF True] by simp
  next
    case False
    then obtain n where n: "1 \<le> n" "n \<le> 10" "parseInt speed = num n"
      using assms fanSpeedUpdate_numeric [OF False] by (auto split: if_splits)
    then have "u = [(''fnsp'', padStart (toString (num n)) 4 CHR ''0''),
                (''auto'', ''OFF''), (''fpwr'', ''ON'')]"
      using assms fanSpeedUpdate_numeric [OF False] by (auto split: if_splits)
    then have "u = [(''fnsp'', padStart (dec (nat n)) 4 CHR ''0''), (''auto'', ''OFF''),
                        (''fpwr'', ''ON'')]"
      using speed_codes(1) [OF n(1,2)] by simp
    then show ?thesis
      using False n fanSpeedUpdate_digits(2) [OF n(1,2)] by auto
  qed
  then have 2: "map_of u ''fpwr'' = Some ''ON''"
    by (auto split: if_splits)
  have 3: "setFanSpeed net c deviceId speed = setDeviceState net c deviceId u"
    using assms by (simp add: setFanSpeed_def)
  have 4: "ensureToken net c = (Inr (), c1) \<and> getDevice net c1 deviceId = Some (Inr device, c2)
         \<longrightarrow> (\<exists>r c' rs. setFanSpeed net c deviceId speed = Some (r, c')
                 \<and> sent c' = sent c2 @ PatchState (DysonDevice.serial device) (authToken c2) u # rs
                 \<and> patchBodies rs = []
                 \<and> patchBodies (sent c') = patchBodies (sent c) @ [u])"
  proof
    assume h: "ensureToken net c = (Inr (), c1) \<and> getDevice net c1 deviceId = Some (Inr device, c2)"
    then obtain r c' rs where s: "setDeviceState net c deviceId u = Some (r, c')"
        "sent c' = sent c2 @ PatchState (DysonDevice.serial device) (authToken c2) u # rs"
        "patchBodies rs = []"
      using setDeviceState_patches [of net c c1 deviceId device c2 u] by blast
    have "patchBodies (sent c') = patchBodies (sent c) @ [u]"
      using setDeviceState_sends [of net c c1 deviceId device c2 u r c'] h s(1) by blast
    then show "\<exists>r c' rs. setFanSpeed net c deviceId speed = Some (r, c')
                 \<and> sent c' = sent c2 @ PatchState (DysonDevice.serial device) (authToken c2) u # rs
                 \<and> patchBodies rs = []
                 \<and> patchBodies (sent c') = patchBodies (sent c) @ [u]"
      using s 3 by auto
  qed
  have 5: "setFanSpeed net c deviceId speed = Some (y, d)
         \<longrightarrow> patchBodies (sent d) = patchBodies (sent c) @ [u]
             \<or> patchBodies (sent d) = patchBodies (sent c)"
    using setDeviceState_quiet(1) [of net c deviceId u y d] 3 by simp
  from 1 2 3 4 5 show ?thesis by blast
qed

theorem setFanSpeed_writes_witness:
  "fanSpeedUpdate ''7'' = Inr [(''fnsp'', ''0007''), (''auto'', ''OFF''), (''fpwr'', ''ON'')]
   \<and> map_of [(''fnsp'', ''0007''), (''auto'', ''OFF''), (''fpwr'', ''ON'')] ''fpwr'' = Some ''ON''
   \<and> (\<exists>r c' rs. setFanSpeed cloud connectedClient None ''7'' = Some (r, c')
         \<and> sent c' = sent connectedClient @
             PatchState ''A1B-EU-KDA0001A'' (Some ''token'')
               [(''fnsp'', ''0007''), (''auto'', ''OFF''), (''fpwr'', ''ON'')] # rs
         \<and> patchBodies rs = []
         \<and> patchBodies (sent c') = patchBodies (sent connectedClient)
             @ [[(''fnsp'', ''0007''), (''auto'', ''OFF''), (''fpwr'', ''ON'')]])"
proof -
  have a: "fanSpeedUpdate ''7'' = Inr [(''fnsp'', ''0007''), (''auto'', ''OFF''), (''fpwr'', ''ON'')]"
    by code_simp
  have h: "ensureToken cloud connectedClient = (Inr (), connectedClient)
      \<and> getDevice cloud connectedClient None = Some (Inr (toDevice purifier), connectedClient)"
    by code_simp
  have v: "DysonDevice.serial (toDevice purifier) = ''A1B-EU-KDA0001A''"
    "authToken connectedClient = Some ''token''"
    by code_simp+
  note t = setFanSpeed_writes [OF a, of cloud connectedClient None
      connectedClient "toDevice purifier" connectedClient]
  from t have 1: "map_of [(''fnsp'', ''0007''), (''auto'', ''OFF''), (''fpwr'', ''ON'')] ''fpwr''
      = Some ''ON''"
    by blast
  from t h have 2: "\<exists>r c' rs. setFanSpeed cloud connectedClient None ''7'' = Some (r, c')
         \<and> sent c' = sent connectedClient @
             PatchState (DysonDevice.serial (toDevice purifier)) (authToken connectedClient)
               [(''fnsp'', ''0007''), (''auto'', ''OFF''), (''fpwr'', ''ON'')] # rs
         \<and> patchBodies rs = []
         \<and> patchBodies (sent c') = patchBodies (sent connectedClient)
             @ [[(''fnsp'', ''0007''), (''auto'', ''OFF''), (''fpwr'', ''ON'')]]"
    by blast
  from a 1 2 show ?thesis unfolding v by blast
qed

end
